theory Spec2Isabelle
  imports Complex_Main
begin

section \<open>Values that cross the HTTP boundary\<close>

text \<open>
  The two servers of the repository are Express applications. The offline-data server
  is the file with the \<^verbatim>\<open>offlineData\<close> map (called variant A below); the file
  \<^verbatim>\<open>server.js\<close> with \<^verbatim>\<open>data.json\<close> is variant B.

  Request bodies are parsed JSON. A JSON value is modelled by \<open>jsval\<close>; numbers are
  integers (JavaScript numbers are doubles, which are exact on integers below \<open>2^53\<close>;
  fractions, infinities and NaN are not part of this model). Strings are lists of 8-bit
  characters, read as code units below 256.
\<close>

datatype jsval =
    JUndefined
  | JNull
  | JBool bool
  | JNum int
  | JStr string
  | JArr "jsval list"
  | JObj "(string \<times> jsval) list"

text \<open>JavaScript's ToBoolean, as used by \<^verbatim>\<open>!x\<close> and \<^verbatim>\<open>x || y\<close>.\<close>

fun truthy :: "jsval \<Rightarrow> bool" where
  "truthy JUndefined = False"
| "truthy JNull = False"
| "truthy (JBool b) = b"
| "truthy (JNum n) = (n \<noteq> 0)"
| "truthy (JStr s) = (s \<noteq> [])"
| "truthy (JArr xs) = True"
| "truthy (JObj fs) = True"

text \<open>
  \<^verbatim>\<open>String.prototype.trim\<close>: the white space and line terminators among the code
  units below 256 are 9 to 13, 32 and 160.
\<close>

definition isSpace :: "char \<Rightarrow> bool" where
  "isSpace c = ((of_char c :: nat) \<in> {9, 10, 11, 12, 13, 32, 160})"

definition trim :: "string \<Rightarrow> string" where
  "trim s = rev (dropWhile isSpace (rev (dropWhile isSpace s)))"

text \<open>
  \<^verbatim>\<open>xs.slice(-n)\<close>: the last \<open>n\<close> elements, the whole array when it is shorter
  (a start before the beginning is clamped to 0, which is what the truncating
  subtraction of \<open>nat\<close> does here).
\<close>

definition slice_last :: "nat \<Rightarrow> 'a list \<Rightarrow> 'a list" where
  "slice_last n xs = drop (length xs - n) xs"

section \<open>Offline records and the accrual engine (variant A)\<close>

text \<open>
  An offline record is an object with the properties \<^verbatim>\<open>points\<close> and
  \<^verbatim>\<open>lastSeen\<close>. A property is an integer number or is not there (reading it gives
  \<^verbatim>\<open>undefined\<close>): the code guards both reads with \<^verbatim>\<open>||\<close>. These are the
  records the server state and the request bodies of this model hold; a record whose
  \<^verbatim>\<open>lastSeen\<close> is no number is treated in the section on records as a client may
  save them, and other kinds of property value (strings, fractions) are outside the
  model.
\<close>

datatype numfield = Undefined | Num int

record offline_record =
  points :: numfield
  lastSeen :: numfield

text \<open>\<^verbatim>\<open>x || d\<close> for such a property: \<^verbatim>\<open>undefined\<close> and \<^verbatim>\<open>0\<close> are falsy.\<close>

fun or_else :: "numfield \<Rightarrow> int \<Rightarrow> int" where
  "or_else Undefined d = d"
| "or_else (Num n) d = (if n = 0 then d else n)"

definition POINTS_PER_SECOND_OFFLINE :: int where
  "POINTS_PER_SECOND_OFFLINE = 1"

text \<open>
  \<^verbatim>\<open>
  function awardOfflinePoints(stored, nowMs) {
    const elapsedMs = Math.max(0, nowMs - (stored.lastSeen || nowMs));
    const points = Math.floor(elapsedMs / 1000) * POINTS_PER_SECOND_OFFLINE;
    stored.points = (stored.points || 0) + points;
    stored.lastSeen = nowMs;
    return stored;
  }
  \<close>
  \<open>elapsedMs\<close> is a non-negative integer, so \<^verbatim>\<open>Math.floor(elapsedMs / 1000)\<close> is
  \<open>elapsedMs div 1000\<close>. \<open>credit\<close> is the local constant \<^verbatim>\<open>points\<close>, the number
  of points the call adds.
\<close>

definition elapsedMs :: "offline_record \<Rightarrow> int \<Rightarrow> int" where
  "elapsedMs stored nowMs = max 0 (nowMs - or_else (lastSeen stored) nowMs)"

definition credit :: "offline_record \<Rightarrow> int \<Rightarrow> int" where
  "credit stored nowMs = (elapsedMs stored nowMs div 1000) * POINTS_PER_SECOND_OFFLINE"

definition awardOfflinePoints :: "offline_record \<Rightarrow> int \<Rightarrow> offline_record" where
  "awardOfflinePoints stored nowMs =
     stored\<lparr>points := Num (or_else (points stored) 0 + credit stored nowMs),
            lastSeen := Num nowMs\<rparr>"

text \<open>
  A player key is the string of a header or of an address, or the number
  \<^verbatim>\<open>Date.now() + Math.random()\<close> (taken as a real number; the rounding of the
  double sum is not modelled). The \<^verbatim>\<open>offlineData\<close> map and the
  \<^verbatim>\<open>activePlayers\<close> set compare keys by value.
\<close>

datatype player_key = KStr string | KNum real

fun truthy_key :: "player_key option \<Rightarrow> bool" where
  "truthy_key None = False"
| "truthy_key (Some (KStr s)) = (s \<noteq> [])"
| "truthy_key (Some (KNum x)) = (x \<noteq> 0)"

type_synonym offline_map = "player_key \<rightharpoonup> offline_record"

text \<open>
  The statements that the middleware and the \<^verbatim>\<open>/my-offline\<close> handler both run on
  the map, for a key \<open>clientId\<close> and a clock reading \<open>now\<close>:
  \<^verbatim>\<open>
  let stored = offlineData.get(clientId);
  if (!stored) {
    stored = { points: 0, lastSeen: now };
  } else {
    stored = awardOfflinePoints(stored, now);
  }
  offlineData.set(clientId, stored);
  \<close>
  \<open>touch\<close> is the new value of \<open>stored\<close>, \<open>accrue\<close> the map after the last statement.
\<close>

definition touch :: "offline_record option \<Rightarrow> int \<Rightarrow> offline_record" where
  "touch found now =
     (case found of
        None \<Rightarrow> \<lparr>points = Num 0, lastSeen = Num now\<rparr>
      | Some stored \<Rightarrow> awardOfflinePoints stored now)"

definition accrue :: "player_key \<Rightarrow> int \<Rightarrow> offline_map \<Rightarrow> offline_map" where
  "accrue clientId now od = od(clientId \<mapsto> touch (od clientId) now)"

section \<open>Offline records as a client may save them\<close>

text \<open>
  \<^verbatim>\<open>/save-offline-data\<close> stores the object of the request body as it is, so
  \<^verbatim>\<open>awardOfflinePoints\<close> also meets records whose \<^verbatim>\<open>lastSeen\<close> is no number.
  The records below have \<^verbatim>\<open>points\<close> absent or a JavaScript number (an integer, or
  the NaN that the arithmetic produces) and \<^verbatim>\<open>lastSeen\<close> absent, an integer or the
  empty object \<^verbatim>\<open>{}\<close>.
\<close>

datatype jsnumber = Number int | NaN

datatype seen_value = NoLastSeen | SeenNumber int | SeenObject

record stored_json =
  points_json :: "jsnumber option"
  lastSeen_json :: seen_value

text \<open>
  The number that \<^verbatim>\<open>nowMs - (stored.lastSeen || nowMs)\<close> subtracts: \<^verbatim>\<open>{}\<close> is
  truthy and its numeric value is NaN. \<^verbatim>\<open>stored.points || 0\<close>: an absent property, 0
  and NaN are falsy.
\<close>

fun seen_or :: "seen_value \<Rightarrow> int \<Rightarrow> jsnumber" where
  "seen_or NoLastSeen d = Number d"
| "seen_or (SeenNumber n) d = Number (if n = 0 then d else n)"
| "seen_or SeenObject d = NaN"

fun points_or :: "jsnumber option \<Rightarrow> int" where
  "points_or None = 0"
| "points_or (Some NaN) = 0"
| "points_or (Some (Number p)) = p"

text \<open>
  \<^verbatim>\<open>awardOfflinePoints\<close> on these records. A difference with NaN is NaN,
  \<^verbatim>\<open>Math.max(0, NaN)\<close> and \<^verbatim>\<open>Math.floor(NaN / 1000) * 1\<close> are NaN, and a sum with
  NaN is NaN.
\<close>

definition credit_json :: "stored_json \<Rightarrow> int \<Rightarrow> jsnumber" where
  "credit_json stored nowMs =
     (case seen_or (lastSeen_json stored) nowMs of
        NaN \<Rightarrow> NaN
      | Number seen \<Rightarrow> Number ((max 0 (nowMs - seen) div 1000) * POINTS_PER_SECOND_OFFLINE))"

definition awardOfflinePoints_json :: "stored_json \<Rightarrow> int \<Rightarrow> stored_json" where
  "awardOfflinePoints_json stored nowMs =
     stored\<lparr>points_json :=
              Some (case credit_json stored nowMs of
                      NaN \<Rightarrow> NaN
                    | Number c \<Rightarrow> Number (points_or (points_json stored) + c)),
            lastSeen_json := SeenNumber nowMs\<rparr>"

text \<open>The offline records of the previous section among these records.\<close>

fun field_json :: "numfield \<Rightarrow> jsnumber option" where
  "field_json Undefined = None"
| "field_json (Num n) = Some (Number n)"

fun seen_json :: "numfield \<Rightarrow> seen_value" where
  "seen_json Undefined = NoLastSeen"
| "seen_json (Num n) = SeenNumber n"

definition as_json :: "offline_record \<Rightarrow> stored_json" where
  "as_json r = \<lparr>points_json = field_json (points r), lastSeen_json = seen_json (lastSeen r)\<rparr>"

section \<open>Requests, responses and the server state\<close>

datatype route =
    Root
  | PlayerCount
  | PlayerCountStream
  | SubmitReview
  | GetReviews
  | SaveOfflineData
  | GetOfflineData
  | MyOffline
  | NoRoute

text \<open>
  A request as the middleware and the handlers read it: the route, the headers
  \<^verbatim>\<open>x-client-id\<close> and \<^verbatim>\<open>x-forwarded-for\<close>, \<^verbatim>\<open>req.ip\<close>,
  \<^verbatim>\<open>req.connection.remoteAddress\<close>, the properties of \<^verbatim>\<open>req.body\<close> that are
  destructured, and what the environment returns while the request is served: the
  readings of \<^verbatim>\<open>Date.now()\<close> (\<open>clock_key\<close> in the key fallback, \<open>clock\<close> in the
  middleware, \<open>clock_handler\<close> in \<^verbatim>\<open>/my-offline\<close>) and \<^verbatim>\<open>Math.random()\<close>.
  \<^verbatim>\<open>req.body\<close> is an object (what \<^verbatim>\<open>express.json()\<close> leaves for a parsed or an
  absent body); a property that is not there reads as \<open>JUndefined\<close> or \<open>None\<close>.
  A player id is a string or a number, the payload of save-offline-data an offline
  record.

  A \<open>request\<close> is a request that has reached the application's own middleware;
  what \<^verbatim>\<open>express.json()\<close> and \<^verbatim>\<open>express.static('public')\<close> do before it is the
  function \<open>receive\<close> below.
\<close>

record request =
  route :: route
  x_client_id :: "string option"
  x_forwarded_for :: "string option"
  ip :: "string option"
  remoteAddress :: "string option"
  body_text :: jsval
  body_timestamp :: jsval
  body_playerId :: "player_key option"
  body_offlineData :: "offline_record option"
  clock_key :: int
  random :: real
  clock :: int
  clock_handler :: int

record review =
  review_text :: jsval
  review_timestamp :: jsval

datatype response =
    SendFile string
  | JsonCount nat int
  | EventStream nat int
  | JsonSuccess
  | JsonFailure string
  | JsonReviews "review list"
  | JsonData offline_record
  | JsonMyOffline numfield numfield
  | NotFound
  | ServerError

text \<open>
  \<^verbatim>\<open>res.json\<close>, \<^verbatim>\<open>res.sendFile\<close> and \<^verbatim>\<open>res.writeHead(200, ...)\<close> answer with
  status 200; a request no route matches gets Express's 404, an exception thrown by a
  handler its 500.
\<close>

fun status :: "response \<Rightarrow> nat" where
  "status NotFound = 404"
| "status ServerError = 500"
| "status _ = 200"

text \<open>\<^verbatim>\<open>a || b\<close> where \<open>a\<close> is a string or \<^verbatim>\<open>undefined\<close>.\<close>

fun str_or :: "string option \<Rightarrow> string \<Rightarrow> string" where
  "str_or None d = d"
| "str_or (Some s) d = (if s = [] then d else s)"

text \<open>
  \<^verbatim>\<open>
  function getClientIp(req) {
    const forwarded = req.headers['x-forwarded-for'];
    if (forwarded) return forwarded.split(',')[0].trim();
    return req.ip || req.connection.remoteAddress || '';
  }
  \<close>
\<close>

definition getClientIp :: "request \<Rightarrow> string" where
  "getClientIp req =
     (case x_forwarded_for req of
        None \<Rightarrow> str_or (ip req) (str_or (remoteAddress req) [])
      | Some forwarded \<Rightarrow>
          if forwarded \<noteq> [] then trim (takeWhile (\<lambda>c. c \<noteq> CHR '','') forwarded)
          else str_or (ip req) (str_or (remoteAddress req) []))"

text \<open>
  Variant A:
  \<^verbatim>\<open>const clientId = req.headers['x-client-id'] || getClientIp(req) || Date.now() + Math.random();\<close>
\<close>

definition clientId :: "request \<Rightarrow> player_key" where
  "clientId req =
     (let h = str_or (x_client_id req) (getClientIp req)
      in if h \<noteq> [] then KStr h else KNum (of_int (clock_key req) + random req))"

record server =
  currentPlayers :: nat
  totalPlayers :: int
  activePlayers :: "player_key set"
  reviews :: "review list"
  offlineData :: offline_map

text \<open>
  The state after the module is loaded, for the map the start-up code has read from
  \<^verbatim>\<open>offlineData.json\<close>.
\<close>

definition init :: "offline_map \<Rightarrow> server" where
  "init loaded =
     \<lparr>currentPlayers = 0, totalPlayers = 0, activePlayers = {}, reviews = [],
      offlineData = loaded\<rparr>"

text \<open>
  The middleware of variant A. \<^verbatim>\<open>activePlayers.size\<close> is the cardinality of the set.
  \<^verbatim>\<open>
  app.use((req, res, next) => {
    const clientId = ...;
    const now = Date.now();
    let stored = offlineData.get(clientId); ... offlineData.set(clientId, stored);
    activePlayers.add(clientId);
    currentPlayers = activePlayers.size;
    totalPlayers = Math.max(totalPlayers, currentPlayers);
    req.on('close', () => { activePlayers.delete(clientId); currentPlayers = activePlayers.size; });
    next();
  });
  \<close>
\<close>

definition middleware :: "request \<Rightarrow> server \<Rightarrow> server" where
  "middleware req s =
     (let active = insert (clientId req) (activePlayers s);
          current = card active
      in s\<lparr>offlineData := accrue (clientId req) (clock req) (offlineData s),
            activePlayers := active,
            currentPlayers := current,
            totalPlayers := max (totalPlayers s) (int current)\<rparr>)"

text \<open>The callback registered on the request's \<^verbatim>\<open>close\<close> event, for its key.\<close>

definition on_close :: "player_key \<Rightarrow> server \<Rightarrow> server" where
  "on_close k s =
     (let active = activePlayers s - {k}
      in s\<lparr>activePlayers := active, currentPlayers := card active\<rparr>)"

text \<open>
  The route handlers of variant A, each returning the response and the new state.
\<close>

definition submit_review :: "request \<Rightarrow> server \<Rightarrow> response \<times> server" where
  "submit_review req s =
     (if \<not> truthy (body_text req) \<or> \<not> truthy (body_timestamp req)
      then (JsonFailure ''Missing required fields'', s)
      else
        let pushed = reviews s @ [\<lparr>review_text = body_text req,
                                   review_timestamp = body_timestamp req\<rparr>]
        in (JsonSuccess,
            s\<lparr>reviews := (if length pushed > 100 then slice_last 100 pushed else pushed)\<rparr>))"

definition get_reviews :: "server \<Rightarrow> response" where
  "get_reviews s = JsonReviews (rev (slice_last 10 (reviews s)))"

definition save_offline_data :: "request \<Rightarrow> server \<Rightarrow> response \<times> server" where
  "save_offline_data req s =
     (case (body_playerId req, body_offlineData req) of
        (Some pid, Some d) \<Rightarrow>
          if truthy_key (Some pid)
          then (JsonSuccess, s\<lparr>offlineData := (offlineData s)(pid \<mapsto> d)\<rparr>)
          else (JsonFailure ''Missing required fields'', s)
      | _ \<Rightarrow> (JsonFailure ''Missing required fields'', s))"

definition get_offline_data :: "request \<Rightarrow> server \<Rightarrow> response" where
  "get_offline_data req s =
     (case body_playerId req of
        None \<Rightarrow> JsonFailure ''Missing player ID''
      | Some pid \<Rightarrow>
          if \<not> truthy_key (Some pid) then JsonFailure ''Missing player ID''
          else (case offlineData s pid of
                  Some d \<Rightarrow> JsonData d
                | None \<Rightarrow> JsonFailure ''No offline data found''))"

definition my_offline :: "request \<Rightarrow> server \<Rightarrow> response \<times> server" where
  "my_offline req s =
     (let h = str_or (x_client_id req) (getClientIp req)
      in if h = [] then (JsonFailure ''No client ID or IP found'', s)
         else
           let stored = touch (offlineData s (KStr h)) (clock_handler req)
           in (JsonMyOffline (points stored) (lastSeen stored),
               s\<lparr>offlineData := (offlineData s)(KStr h \<mapsto> stored)\<rparr>))"

definition handler :: "request \<Rightarrow> server \<Rightarrow> response \<times> server" where
  "handler req s =
     (case route req of
        Root \<Rightarrow> (SendFile ''public/main.html'', s\<lparr>totalPlayers := totalPlayers s + 1\<rparr>)
      | PlayerCount \<Rightarrow> (JsonCount (currentPlayers s) (totalPlayers s), s)
      | PlayerCountStream \<Rightarrow> (EventStream (currentPlayers s) (totalPlayers s), s)
      | SubmitReview \<Rightarrow> submit_review req s
      | GetReviews \<Rightarrow> (get_reviews s, s)
      | SaveOfflineData \<Rightarrow> save_offline_data req s
      | GetOfflineData \<Rightarrow> (get_offline_data req s, s)
      | MyOffline \<Rightarrow> my_offline req s
      | NoRoute \<Rightarrow> (NotFound, s))"

text \<open>A request passes the middleware and then its handler.\<close>

definition serve :: "request \<Rightarrow> server \<Rightarrow> response \<times> server" where
  "serve req s = handler req (middleware req s)"




datatype event = Request request | Close player_key

fun step :: "server \<Rightarrow> event \<Rightarrow> server" where
  "step s (Request req) = snd (serve req s)"
| "step s (Close k) = on_close k s"

fun run :: "server \<Rightarrow> event list \<Rightarrow> server" where
  "run s [] = s"
| "run s (e # es) = run (step s e) es"

text \<open>
  An accepted save-offline-data request for the player \<open>k\<close>; a load of the root page.
\<close>

fun overwrites :: "player_key \<Rightarrow> event \<Rightarrow> bool" where
  "overwrites k (Request req) =
     (route req = SaveOfflineData \<and> body_playerId req = Some k \<and> truthy_key (Some k) \<and>
      body_offlineData req \<noteq> None)"
| "overwrites k (Close c) = False"

fun is_root :: "event \<Rightarrow> bool" where
  "is_root (Request req) = (route req = Root)"
| "is_root (Close k) = False"


section \<open>Variant B: the server with \<^verbatim>\<open>data.json\<close>\<close>

text \<open>
  The state of \<^verbatim>\<open>server.js\<close>: \<^verbatim>\<open>data.totalPlayers\<close>, \<^verbatim>\<open>data.reviews\<close>,
  \<^verbatim>\<open>currentPlayers\<close> and \<^verbatim>\<open>activePlayers\<close>. \<^verbatim>\<open>saveData()\<close> writes
  \<^verbatim>\<open>data\<close> to the file and catches its own failure; the running process never reads
  the file again, so the write is no part of this state.
\<close>

record serverB =
  currentPlayersB :: nat
  totalPlayersB :: int
  activePlayersB :: "player_key set"
  reviewsB :: "review list"

text \<open>
  \<^verbatim>\<open>const clientId = req.headers['x-client-id'] || Date.now() + Math.random();\<close>
\<close>

definition clientIdB :: "request \<Rightarrow> player_key" where
  "clientIdB req =
     (let h = str_or (x_client_id req) []
      in if h \<noteq> [] then KStr h else KNum (of_int (clock_key req) + random req))"

definition middlewareB :: "request \<Rightarrow> serverB \<Rightarrow> serverB" where
  "middlewareB req s =
     (let active = insert (clientIdB req) (activePlayersB s)
      in s\<lparr>activePlayersB := active, currentPlayersB := card active\<rparr>)"

definition on_closeB :: "player_key \<Rightarrow> serverB \<Rightarrow> serverB" where
  "on_closeB k s =
     (let active = activePlayersB s - {k}
      in s\<lparr>activePlayersB := active, currentPlayersB := card active\<rparr>)"

text \<open>
  \<^verbatim>\<open>
  if (!text || !timestamp) { return res.json({ success: false, error: 'Missing required fields' }); }
  data.reviews.push({ text: text.trim(), timestamp });
  if (data.reviews.length > 100) { data.reviews = data.reviews.slice(-100); }
  \<close>
  A truthy \<^verbatim>\<open>text\<close> that is no string has no \<^verbatim>\<open>trim\<close> method: the call throws a
  TypeError before anything is pushed, and Express answers with status 500.
\<close>

definition submit_reviewB :: "request \<Rightarrow> serverB \<Rightarrow> response \<times> serverB" where
  "submit_reviewB req s =
     (if \<not> truthy (body_text req) \<or> \<not> truthy (body_timestamp req)
      then (JsonFailure ''Missing required fields'', s)
      else
        (case body_text req of
           JStr t \<Rightarrow>
             let pushed = reviewsB s @ [\<lparr>review_text = JStr (trim t),
                                         review_timestamp = body_timestamp req\<rparr>]
             in (JsonSuccess,
                 s\<lparr>reviewsB := (if length pushed > 100 then slice_last 100 pushed else pushed)\<rparr>)
         | _ \<Rightarrow> (ServerError, s)))"

definition get_reviewsB :: "serverB \<Rightarrow> response" where
  "get_reviewsB s = JsonReviews (rev (slice_last 10 (reviewsB s)))"

definition handlerB :: "request \<Rightarrow> serverB \<Rightarrow> response \<times> serverB" where
  "handlerB req s =
     (case route req of
        Root \<Rightarrow> (SendFile ''public/main.html'', s\<lparr>totalPlayersB := totalPlayersB s + 1\<rparr>)
      | PlayerCount \<Rightarrow> (JsonCount (currentPlayersB s) (totalPlayersB s), s)
      | PlayerCountStream \<Rightarrow> (EventStream (currentPlayersB s) (totalPlayersB s), s)
      | SubmitReview \<Rightarrow> submit_reviewB req s
      | GetReviews \<Rightarrow> (get_reviewsB s, s)
      | _ \<Rightarrow> (NotFound, s))"

definition serveB :: "request \<Rightarrow> serverB \<Rightarrow> response \<times> serverB" where
  "serveB req s = handlerB req (middlewareB req s)"

fun stepB :: "serverB \<Rightarrow> event \<Rightarrow> serverB" where
  "stepB s (Request req) = snd (serveB req s)"
| "stepB s (Close k) = on_closeB k s"

fun runB :: "serverB \<Rightarrow> event list \<Rightarrow> serverB" where
  "runB s [] = s"
| "runB s (e # es) = runB (stepB s e) es"

text \<open>
  The state after the module is loaded, for the \<^verbatim>\<open>data\<close> object the start-up code
  has built.
\<close>

definition initB :: "int \<Rightarrow> review list \<Rightarrow> serverB" where
  "initB n revs =
     \<lparr>currentPlayersB = 0, totalPlayersB = n, activePlayersB = {}, reviewsB = revs\<rparr>"

section \<open>Open connections\<close>

text \<open>
  What the presence set is meant to follow: the connections that are open. A request
  opens a connection attributed to its key, a \<^verbatim>\<open>close\<close> event ends one connection
  of the key its callback has captured. \<open>conns key opn es\<close> lists the keys of the
  connections open after the events \<open>es\<close>, one entry for each connection, from the
  connections \<open>opn\<close> open before; \<open>key\<close> is the key derivation of the variant.
\<close>

fun conns :: "(request \<Rightarrow> player_key) \<Rightarrow> player_key list \<Rightarrow> event list \<Rightarrow> player_key list" where
  "conns key opn [] = opn"
| "conns key opn (Request req # es) = conns key (key req # opn) es"
| "conns key opn (Close k # es) = conns key (remove1 k opn) es"

text \<open>Every \<^verbatim>\<open>close\<close> event ends a connection that is open.\<close>

fun closes_open :: "(request \<Rightarrow> player_key) \<Rightarrow> player_key list \<Rightarrow> event list \<Rightarrow> bool" where
  "closes_open key opn [] = True"
| "closes_open key opn (Request req # es) = closes_open key (key req # opn) es"
| "closes_open key opn (Close k # es) = (k \<in> set opn \<and> closes_open key (remove1 k opn) es)"

text \<open>No request arrives while another connection of its key is open.\<close>

fun one_at_a_time :: "(request \<Rightarrow> player_key) \<Rightarrow> player_key list \<Rightarrow> event list \<Rightarrow> bool" where
  "one_at_a_time key opn [] = True"
| "one_at_a_time key opn (Request req # es) =
     (key req \<notin> set opn \<and> one_at_a_time key (key req # opn) es)"
| "one_at_a_time key opn (Close k # es) = one_at_a_time key (remove1 k opn) es"

text \<open>
  The presence set alone: both middlewares add the key of a request to it and both
  \<^verbatim>\<open>close\<close> callbacks delete the captured key from it.
\<close>

fun presence :: "(request \<Rightarrow> player_key) \<Rightarrow> player_key set \<Rightarrow> event list \<Rightarrow> player_key set" where
  "presence key A [] = A"
| "presence key A (Request req # es) = presence key (insert (key req) A) es"
| "presence key A (Close k # es) = presence key (A - {k}) es"

text \<open>
  The largest value \<^verbatim>\<open>currentPlayers\<close> has from the state \<open>s\<close> on, over the events
  \<open>es\<close> (a handler does not change \<^verbatim>\<open>currentPlayers\<close>, so the values between the
  events are all there are).
\<close>

fun peak :: "server \<Rightarrow> event list \<Rightarrow> nat" where
  "peak s [] = currentPlayers s"
| "peak s (e # es) = max (currentPlayers s) (peak (step s e) es)"

section \<open>Loading the persistent store\<close>

text \<open>
  What the start-up code gets from the file inside its \<^verbatim>\<open>try\<close> block:
  \<^verbatim>\<open>fs.readFileSync\<close> or \<^verbatim>\<open>JSON.parse\<close> throws, or the parsed document is
  returned (in variant A an empty file is parsed as \<^verbatim>\<open>'{}'\<close>, the document with
  no entries, and a document that is \<^verbatim>\<open>null\<close> makes \<^verbatim>\<open>Object.entries\<close> throw).
\<close>

datatype 'a attempt = Throws | Returns 'a

text \<open>
  Variant A:
  \<^verbatim>\<open>
  if (fs.existsSync(OFFLINE_FILE)) {
    try {
      const raw = JSON.parse(fs.readFileSync(OFFLINE_FILE, 'utf8') || '{}');
      offlineData = new Map(Object.entries(raw));
      for (const [k, v] of offlineData) {
        v.points = Number(v.points || 0);
        v.lastSeen = Number(v.lastSeen || Date.now());
        offlineData.set(k, v);
      }
    } catch (err) {
      console.error('Error loading offlineData.json:', err);
      offlineData = new Map();
    }
  }
  \<close>
  The parsed document is the list of its entries, in order; an entry is an offline
  record or \<^verbatim>\<open>null\<close> (\<open>None\<close>), on which reading \<^verbatim>\<open>v.points\<close> throws a
  TypeError inside the \<^verbatim>\<open>try\<close>. \<open>now i\<close> is the reading of \<^verbatim>\<open>Date.now()\<close>
  in the iteration for entry \<open>i\<close>. The result is the map and whether an error was
  logged.
\<close>

definition coerce :: "offline_record \<Rightarrow> int \<Rightarrow> offline_record" where
  "coerce v now =
     v\<lparr>points := Num (or_else (points v) 0), lastSeen := Num (or_else (lastSeen v) now)\<rparr>"

fun coerce_entries ::
  "(string \<times> offline_record option) list \<Rightarrow> nat \<Rightarrow> (nat \<Rightarrow> int) \<Rightarrow> offline_map \<Rightarrow> offline_map attempt"
where
  "coerce_entries [] i now m = Returns m"
| "coerce_entries ((k, None) # es) i now m = Throws"
| "coerce_entries ((k, Some v) # es) i now m =
     coerce_entries es (Suc i) now (m(KStr k \<mapsto> coerce v (now i)))"

definition load_offlineData ::
  "bool \<Rightarrow> (string \<times> offline_record option) list attempt \<Rightarrow> (nat \<Rightarrow> int) \<Rightarrow> offline_map \<times> bool"
where
  "load_offlineData file_exists parsed now =
     (if \<not> file_exists then (Map.empty, False)
      else (case parsed of
              Throws \<Rightarrow> (Map.empty, True)
            | Returns raw \<Rightarrow>
                (case coerce_entries raw 0 now Map.empty of
                   Throws \<Rightarrow> (Map.empty, True)
                 | Returns m \<Rightarrow> (m, False))))"

text \<open>
  Variant B:
  \<^verbatim>\<open>
  let data = { totalPlayers: 0, reviews: [] };
  if (fs.existsSync(DATA_FILE)) {
    try {
      const loaded = JSON.parse(fs.readFileSync(DATA_FILE, 'utf8'));
      data = { ...data, ...loaded };
    } catch (err) {
      console.error('Failed to read data.json, starting fresh:', err);
    }
  }
  \<close>
  The parsed document has the property \<^verbatim>\<open>totalPlayers\<close>, the property
  \<^verbatim>\<open>reviews\<close>, both or none. The result is \<^verbatim>\<open>data.totalPlayers\<close>,
  \<^verbatim>\<open>data.reviews\<close> and whether an error was logged.
\<close>

record loaded =
  loaded_totalPlayers :: "int option"
  loaded_reviews :: "review list option"

definition load_data :: "bool \<Rightarrow> loaded attempt \<Rightarrow> (int \<times> review list) \<times> bool" where
  "load_data file_exists parsed =
     (if \<not> file_exists then ((0, []), False)
      else (case parsed of
              Throws \<Rightarrow> ((0, []), True)
            | Returns l \<Rightarrow>
                (((case loaded_totalPlayers l of None \<Rightarrow> 0 | Some n \<Rightarrow> n),
                  (case loaded_reviews l of None \<Rightarrow> [] | Some rs \<Rightarrow> rs)), False)))"

section \<open>Reviews that are accepted\<close>

text \<open>
  A submit-review request passes the handlers' guard when \<^verbatim>\<open>text\<close> and
  \<^verbatim>\<open>timestamp\<close> are both truthy. \<open>review_of\<close> is the entry variant A pushes for it,
  \<open>review_ofB\<close> the entry variant B pushes when \<^verbatim>\<open>text\<close> is a string.
\<close>

definition accepted :: "request \<Rightarrow> bool" where
  "accepted req = (truthy (body_text req) \<and> truthy (body_timestamp req))"

definition review_of :: "request \<Rightarrow> review" where
  "review_of req = \<lparr>review_text = body_text req, review_timestamp = body_timestamp req\<rparr>"

fun trimmed :: "jsval \<Rightarrow> jsval" where
  "trimmed (JStr t) = JStr (trim t)"
| "trimmed v = v"

fun is_string :: "jsval \<Rightarrow> bool" where
  "is_string (JStr t) = True"
| "is_string v = False"

definition review_ofB :: "request \<Rightarrow> review" where
  "review_ofB req = \<lparr>review_text = trimmed (body_text req), review_timestamp = body_timestamp req\<rparr>"

section \<open>Example inputs\<close>

text \<open>
  The client of the specification's example: no \<^verbatim>\<open>x-client-id\<close> header, address
  203.0.113.5, an empty body, every clock reading of the request equal to \<open>t\<close>.
\<close>

definition example_request :: "route \<Rightarrow> int \<Rightarrow> request" where
  "example_request rt t =
     \<lparr>route = rt, x_client_id = None, x_forwarded_for = None,
      ip = Some ''203.0.113.5'', remoteAddress = None,
      body_text = JUndefined, body_timestamp = JUndefined,
      body_playerId = None, body_offlineData = None,
      clock_key = t, random = 0, clock = t, clock_handler = t\<rparr>"

text \<open>The same client sending the header \<^verbatim>\<open>x-client-id\<close>.\<close>

definition client_request :: "string \<Rightarrow> route \<Rightarrow> int \<Rightarrow> request" where
  "client_request name rt t = (example_request rt t)\<lparr>x_client_id := Some name\<rparr>"

text \<open>The \<open>i\<close>-th review that client \<open>p1\<close> submits.\<close>

definition submission :: "nat \<Rightarrow> request" where
  "submission i = (client_request ''p1'' SubmitReview (int i))
     \<lparr>body_text := JStr '' meow '', body_timestamp := JNum (int i + 1)\<rparr>"

section \<open>The accrual engine\<close>

lemma div_split_le: "(a::int) div 1000 + b div 1000 \<le> (a + b) div 1000"
proof -
  have "a div 1000 * 1000 \<le> a" and "b div 1000 * 1000 \<le> b"
    by simp_all
  then have "(a div 1000 + b div 1000) * 1000 \<le> a + b"
    by (simp add: algebra_simps)
  then have "((a div 1000 + b div 1000) * 1000) div 1000 \<le> (a + b) div 1000"
    by (intro zdiv_mono1) simp_all
  then show ?thesis by simp
qed

lemma credit_nonneg: "0 \<le> credit r now"
  by (simp add: credit_def elapsedMs_def POINTS_PER_SECOND_OFFLINE_def)

lemma credit_since:
  assumes "lastSeen r = Num t" and "t \<noteq> 0" and "0 \<le> d"
  shows "credit r (t + d) = (d div 1000) * POINTS_PER_SECOND_OFFLINE"
  using assms by (simp add: credit_def elapsedMs_def)

lemma accrue_same: "accrue k now od k = Some (touch (od k) now)"
  by (simp add: accrue_def)

lemma accrue_other: "k' \<noteq> k \<Longrightarrow> accrue k now od k' = od k'"
  by (simp add: accrue_def)

lemma accrue_points_mono:
  assumes "od k = Some r"
  shows "\<exists>r'. accrue c now od k = Some r' \<and> or_else (points r) 0 \<le> or_else (points r') 0"
proof (cases "k = c")
  case True
  have "or_else (points r) 0 \<le> or_else (points r) 0 + credit r now"
    using credit_nonneg [of r now] by simp
  moreover have "or_else (Num (or_else (points r) 0 + credit r now)) 0
      = or_else (points r) 0 + credit r now"
    by simp
  ultimately show ?thesis using assms True
    by (simp add: accrue_def touch_def awardOfflinePoints_def)
next
  case False
  then show ?thesis using assms by (simp add: accrue_def)
qed

lemma offlineData_middleware:
  "offlineData (middleware req s) = accrue (clientId req) (clock req) (offlineData s)"
  by (simp add: middleware_def Let_def)

lemma offlineData_on_close: "offlineData (on_close k s) = offlineData s"
  by (simp add: on_close_def Let_def)

lemma offlineData_submit_review: "offlineData (snd (submit_review req s)) = offlineData s"
  by (simp add: submit_review_def Let_def)

text \<open>
  C1. The time of an accrual is a reading of \<^verbatim>\<open>Date.now()\<close>, a positive number of
  milliseconds. For a key with no record, an accrual at the time \<open>t0\<close> stores the
  record with 0 points and \<open>lastSeen = t0\<close>; the next accrual for the key, \<open>d \<ge> 0\<close>
  milliseconds later, leaves \<open>floor(d / 1000) * rate\<close> points and
  \<open>lastSeen = t0 + d\<close>.
\<close>

theorem first_then_second_accrual:
  assumes "od k = None" and "0 < t0" and "0 \<le> d"
  shows "accrue k t0 od k = Some \<lparr>points = Num 0, lastSeen = Num t0\<rparr> \<and>
         accrue k (t0 + d) (accrue k t0 od) k =
           Some \<lparr>points = Num ((d div 1000) * POINTS_PER_SECOND_OFFLINE),
                 lastSeen = Num (t0 + d)\<rparr>"
proof -
  let ?r = "\<lparr>points = Num 0, lastSeen = Num t0\<rparr>"
  have first: "accrue k t0 od k = Some ?r"
    using assms(1) by (simp add: accrue_def touch_def)
  have "credit ?r (t0 + d) = (d div 1000) * POINTS_PER_SECOND_OFFLINE"
    using assms(2,3) by (intro credit_since) simp_all
  then have "awardOfflinePoints ?r (t0 + d) =
      \<lparr>points = Num ((d div 1000) * POINTS_PER_SECOND_OFFLINE), lastSeen = Num (t0 + d)\<rparr>"
    by (simp add: awardOfflinePoints_def)
  with first show ?thesis
    by (simp add: accrue_same touch_def)
qed

text \<open>
  The client at 203.0.113.5, first seen at 1700000000000 and seen again 3500 ms later.
\<close>

theorem first_then_second_accrual_witness:
  "accrue (KStr ''203.0.113.5'') 1700000000000 Map.empty (KStr ''203.0.113.5'')
     = Some \<lparr>points = Num 0, lastSeen = Num 1700000000000\<rparr> \<and>
   accrue (KStr ''203.0.113.5'') 1700000003500
       (accrue (KStr ''203.0.113.5'') 1700000000000 Map.empty) (KStr ''203.0.113.5'')
     = Some \<lparr>points = Num 3, lastSeen = Num 1700000003500\<rparr>"
  using first_then_second_accrual [of Map.empty "KStr ''203.0.113.5''" 1700000000000 3500]
  by (simp add: POINTS_PER_SECOND_OFFLINE_def)

lemma offlineData_my_offline:
  "offlineData (snd (my_offline req s)) =
     (if str_or (x_client_id req) (getClientIp req) = [] then offlineData s
      else accrue (KStr (str_or (x_client_id req) (getClientIp req))) (clock_handler req)
             (offlineData s))"
  by (simp add: my_offline_def Let_def accrue_def)

lemma handler_points_mono:
  assumes "offlineData s k = Some r" and "route req \<noteq> SaveOfflineData"
  shows "\<exists>r'. offlineData (snd (handler req s)) k = Some r' \<and>
              or_else (points r) 0 \<le> or_else (points r') 0"
proof (cases "route req")
  case SubmitReview
  then show ?thesis using assms(1) by (simp add: handler_def offlineData_submit_review)
next
  case MyOffline
  then show ?thesis
    using accrue_points_mono [of "offlineData s" k r] assms(1)
    by (simp add: handler_def offlineData_my_offline)
qed (use assms in \<open>simp_all add: handler_def\<close>)

lemma save_overwrites:
  assumes "route req = SaveOfflineData" and "body_playerId req = Some pid"
    and "truthy_key (Some pid)" and "body_offlineData req = Some d"
  shows "serve req s =
     (JsonSuccess,
      (middleware req s)\<lparr>offlineData := (offlineData (middleware req s))(pid \<mapsto> d)\<rparr>)"
  using assms by (simp add: serve_def handler_def save_offline_data_def)

lemma award_json_agrees:
  "awardOfflinePoints_json (as_json r) now = as_json (awardOfflinePoints r now)"
proof -
  have s: "seen_or (seen_json (lastSeen r)) now = Number (or_else (lastSeen r) now)"
    by (cases "lastSeen r") simp_all
  have p: "points_or (field_json (points r)) = or_else (points r) 0"
    by (cases "points r") simp_all
  show ?thesis
    by (simp add: awardOfflinePoints_json_def credit_json_def as_json_def awardOfflinePoints_def
        credit_def elapsedMs_def s p)
qed

lemma save_keeps_other:
  assumes "\<not> overwrites k (Request req)" and "route req = SaveOfflineData"
  shows "offlineData (snd (save_offline_data req s)) k = offlineData s k"
  using assms
  by (auto simp: save_offline_data_def split: option.split)

lemma handler_points_mono':
  assumes "offlineData s k = Some r" and "\<not> overwrites k (Request req)"
  shows "\<exists>r'. offlineData (snd (handler req s)) k = Some r' \<and>
              or_else (points r) 0 \<le> or_else (points r') 0"
proof (cases "route req = SaveOfflineData")
  case True
  then have "offlineData (snd (handler req s)) k = offlineData s k"
    using save_keeps_other [OF assms(2) True, of s] by (simp add: handler_def)
  with assms(1) show ?thesis by simp
next
  case False
  with assms(1) show ?thesis by (rule handler_points_mono)
qed

text \<open>
  C4 (as amended). For a record whose \<open>points\<close> and \<open>lastSeen\<close> are integers or
  absent: the number an accrual credits is never negative, whatever \<open>now\<close> is (also
  before the stored \<open>lastSeen\<close>), it is added to the points read as
  \<^verbatim>\<open>stored.points || 0\<close>, and \<^verbatim>\<open>awardOfflinePoints\<close> on the record as a client
  may save it computes the same. Over every event but an accepted save-offline-data
  request for the key itself (any other request with its middleware pass, a save for
  another player, \<^verbatim>\<open>/my-offline\<close> with its second accrual, a connection close) the
  record of the key stays and its points do not decrease. An accepted
  save-offline-data request stores the client's record as it is.
\<close>

theorem points_non_decreasing:
  assumes "offlineData s k = Some r" and "\<not> overwrites k e"
  shows "0 \<le> credit r now \<and>
         points (awardOfflinePoints r now) = Num (or_else (points r) 0 + credit r now) \<and>
         awardOfflinePoints_json (as_json r) now = as_json (awardOfflinePoints r now) \<and>
         (\<exists>r'. offlineData (step s e) k = Some r' \<and>
               or_else (points r) 0 \<le> or_else (points r') 0) \<and>
         (route req = SaveOfflineData \<and> body_playerId req = Some pid \<and>
          truthy_key (Some pid) \<and> body_offlineData req = Some d
            \<longrightarrow> offlineData (step s (Request req)) pid = Some d)"
proof -
  have "\<exists>r'. offlineData (step s e) k = Some r' \<and> or_else (points r) 0 \<le> or_else (points r') 0"
  proof (cases e)
    case (Request q)
    obtain r1 where r1: "offlineData (middleware q s) k = Some r1"
        and le1: "or_else (points r) 0 \<le> or_else (points r1) 0"
      using accrue_points_mono [of "offlineData s" k r] assms(1)
      by (auto simp: offlineData_middleware)
    from assms(2) Request have "\<not> overwrites k (Request q)" by simp
    from handler_points_mono' [OF r1 this] obtain r2
      where "offlineData (snd (handler q (middleware q s))) k = Some r2"
        and "or_else (points r1) 0 \<le> or_else (points r2) 0" by blast
    with le1 Request show ?thesis by (auto simp: serve_def)
  next
    case (Close c)
    then show ?thesis using assms(1) by (simp add: offlineData_on_close)
  qed
  then show ?thesis
    by (simp add: credit_nonneg awardOfflinePoints_def save_overwrites award_json_agrees
        del: overwrites.simps)
qed

text \<open>
  The record of 203.0.113.5 keeps its 5 points over a \<^verbatim>\<open>/my-offline\<close> request at a
  time before its \<open>lastSeen\<close> and over a save for player \<open>p2\<close>; a save for
  203.0.113.5 itself replaces it.
\<close>

theorem points_non_decreasing_witness:
  "\<not> overwrites (KStr ''203.0.113.5'') (Request (example_request MyOffline 1000)) \<and>
   credit \<lparr>points = Num 5, lastSeen = Num 10000\<rparr> 1000 = 0 \<and>
   offlineData (step (init [KStr ''203.0.113.5'' \<mapsto> \<lparr>points = Num 5, lastSeen = Num 10000\<rparr>])
       (Request (example_request MyOffline 1000))) (KStr ''203.0.113.5'')
     = Some \<lparr>points = Num 5, lastSeen = Num 1000\<rparr> \<and>
   \<not> overwrites (KStr ''203.0.113.5'')
       (Request ((example_request SaveOfflineData 12000)
          \<lparr>body_playerId := Some (KStr ''p2''),
           body_offlineData := Some \<lparr>points = Num 2, lastSeen = Num 9\<rparr>\<rparr>)) \<and>
   offlineData (step (init [KStr ''203.0.113.5'' \<mapsto> \<lparr>points = Num 5, lastSeen = Num 10000\<rparr>])
       (Request ((example_request SaveOfflineData 12000)
          \<lparr>body_playerId := Some (KStr ''p2''),
           body_offlineData := Some \<lparr>points = Num 2, lastSeen = Num 9\<rparr>\<rparr>)))
       (KStr ''203.0.113.5'')
     = Some \<lparr>points = Num 7, lastSeen = Num 12000\<rparr> \<and>
   offlineData (step (init [KStr ''203.0.113.5'' \<mapsto> \<lparr>points = Num 5, lastSeen = Num 10000\<rparr>])
       (Request ((example_request SaveOfflineData 2000)
          \<lparr>body_playerId := Some (KStr ''203.0.113.5''),
           body_offlineData := Some \<lparr>points = Num 2, lastSeen = Num 9\<rparr>\<rparr>)))
       (KStr ''203.0.113.5'')
     = Some \<lparr>points = Num 2, lastSeen = Num 9\<rparr>"
  using points_non_decreasing
    [of "init [KStr ''203.0.113.5'' \<mapsto> \<lparr>points = Num 5, lastSeen = Num 10000\<rparr>]"
      "KStr ''203.0.113.5''" "\<lparr>points = Num 5, lastSeen = Num 10000\<rparr>"
      "Request (example_request MyOffline 1000)" 1000
      "(example_request SaveOfflineData 2000)
          \<lparr>body_playerId := Some (KStr ''203.0.113.5''),
           body_offlineData := Some \<lparr>points = Num 2, lastSeen = Num 9\<rparr>\<rparr>"
      "KStr ''203.0.113.5''" "\<lparr>points = Num 2, lastSeen = Num 9\<rparr>"]
    points_non_decreasing
    [of "init [KStr ''203.0.113.5'' \<mapsto> \<lparr>points = Num 5, lastSeen = Num 10000\<rparr>]"
      "KStr ''203.0.113.5''" "\<lparr>points = Num 5, lastSeen = Num 10000\<rparr>"
      "Request ((example_request SaveOfflineData 12000)
          \<lparr>body_playerId := Some (KStr ''p2''),
           body_offlineData := Some \<lparr>points = Num 2, lastSeen = Num 9\<rparr>\<rparr>)" 1000
      "(example_request SaveOfflineData 2000)
          \<lparr>body_playerId := Some (KStr ''203.0.113.5''),
           body_offlineData := Some \<lparr>points = Num 2, lastSeen = Num 9\<rparr>\<rparr>"
      "KStr ''203.0.113.5''" "\<lparr>points = Num 2, lastSeen = Num 9\<rparr>"]
  by (simp add: serve_def handler_def my_offline_def save_offline_data_def
      offlineData_middleware init_def Let_def
      example_request_def clientId_def getClientIp_def accrue_def touch_def
      awardOfflinePoints_def credit_def elapsedMs_def POINTS_PER_SECOND_OFFLINE_def)

text \<open>
  A client saves \<open>{points: 5, lastSeen: {}}\<close>. The accrual at 1000 computes
  \<^verbatim>\<open>1000 - {}\<close>, which is NaN, and leaves NaN points; the accrual at 2000 reads
  \<^verbatim>\<open>NaN || 0\<close> and leaves 1 point. The points have gone from 5 to 1 over accrual
  calls alone.
\<close>

theorem non_numeric_lastSeen_counterexample:
  "awardOfflinePoints_json \<lparr>points_json = Some (Number 5), lastSeen_json = SeenObject\<rparr> 1000
     = \<lparr>points_json = Some NaN, lastSeen_json = SeenNumber 1000\<rparr> \<and>
   awardOfflinePoints_json \<lparr>points_json = Some NaN, lastSeen_json = SeenNumber 1000\<rparr> 2000
     = \<lparr>points_json = Some (Number 1), lastSeen_json = SeenNumber 2000\<rparr>"
  by (simp add: awardOfflinePoints_json_def credit_json_def POINTS_PER_SECOND_OFFLINE_def)


text \<open>
  C5 (as amended). Let a record have \<open>lastSeen = t\<close>, and let an accrual run \<open>a \<ge> 0\<close>
  milliseconds later and a second one \<open>b \<ge> 0\<close> milliseconds after the first, with
  neither \<open>t\<close> nor \<open>t + a\<close> equal to 0. The two calls credit
  \<open>floor(a/1000) * rate + floor(b/1000) * rate\<close> points together, which is at most the
  \<open>floor((a+b)/1000) * rate\<close> that one call at \<open>t + a + b\<close> credits; and each call
  sets \<open>lastSeen\<close> to its own \<open>now\<close>, whatever it credits.
\<close>

theorem split_interval_credit:
  assumes "lastSeen r = Num t" and "t \<noteq> 0" and "t + a \<noteq> 0" and "0 \<le> a" and "0 \<le> b"
  shows "credit r (t + a) + credit (awardOfflinePoints r (t + a)) (t + a + b)
           = (a div 1000) * POINTS_PER_SECOND_OFFLINE + (b div 1000) * POINTS_PER_SECOND_OFFLINE \<and>
         credit r (t + (a + b)) = ((a + b) div 1000) * POINTS_PER_SECOND_OFFLINE \<and>
         credit r (t + a) + credit (awardOfflinePoints r (t + a)) (t + a + b)
           \<le> credit r (t + (a + b)) \<and>
         lastSeen (awardOfflinePoints r (t + a)) = Num (t + a) \<and>
         lastSeen (awardOfflinePoints (awardOfflinePoints r (t + a)) (t + a + b))
           = Num (t + a + b)"
proof -
  have c1: "credit r (t + a) = (a div 1000) * POINTS_PER_SECOND_OFFLINE"
    using assms by (intro credit_since) simp_all
  have ls: "lastSeen (awardOfflinePoints r (t + a)) = Num (t + a)"
    by (simp add: awardOfflinePoints_def)
  have c2: "credit (awardOfflinePoints r (t + a)) (t + a + b)
      = (b div 1000) * POINTS_PER_SECOND_OFFLINE"
    using ls assms by (intro credit_since) simp_all
  have c3: "credit r (t + (a + b)) = ((a + b) div 1000) * POINTS_PER_SECOND_OFFLINE"
    using assms by (intro credit_since) simp_all
  have "a div 1000 + b div 1000 \<le> (a + b) div 1000"
    by (rule div_split_le)
  then have le: "(a div 1000) * POINTS_PER_SECOND_OFFLINE + (b div 1000) * POINTS_PER_SECOND_OFFLINE
      \<le> ((a + b) div 1000) * POINTS_PER_SECOND_OFFLINE"
    by (simp add: POINTS_PER_SECOND_OFFLINE_def)
  show ?thesis
    using c1 c2 c3 le by (simp add: awardOfflinePoints_def)
qed

text \<open>
  Two calls 500 ms apart credit nothing where one call after the full second credits a
  point, and the first of them has moved \<open>lastSeen\<close>.
\<close>

theorem split_interval_credit_witness:
  "credit \<lparr>points = Num 7, lastSeen = Num 1000\<rparr> 1500
     + credit (awardOfflinePoints \<lparr>points = Num 7, lastSeen = Num 1000\<rparr> 1500) 2000 = 0 \<and>
   credit \<lparr>points = Num 7, lastSeen = Num 1000\<rparr> 2000 = 1 \<and>
   awardOfflinePoints \<lparr>points = Num 7, lastSeen = Num 1000\<rparr> 1500
     = \<lparr>points = Num 7, lastSeen = Num 1500\<rparr>"
  using split_interval_credit [of "\<lparr>points = Num 7, lastSeen = Num 1000\<rparr>" 1000 500 500]
  by (simp add: POINTS_PER_SECOND_OFFLINE_def awardOfflinePoints_def credit_def elapsedMs_def)

text \<open>
  With a stored \<open>lastSeen\<close> of 0, a call 1000 ms later and a second call 5000 ms after
  it credit 5 points together: not \<open>floor(1000/1000) + floor(5000/1000) = 6\<close>, and more than the 0
  points that one call at 6000 credits.
\<close>

theorem split_interval_zero_timestamp_counterexample:
  "credit \<lparr>points = Num 0, lastSeen = Num 0\<rparr> 1000
     + credit (awardOfflinePoints \<lparr>points = Num 0, lastSeen = Num 0\<rparr> 1000) 6000 = 5 \<and>
   (1000 div 1000) * POINTS_PER_SECOND_OFFLINE + (5000 div 1000) * POINTS_PER_SECOND_OFFLINE = 6 \<and>
   credit \<lparr>points = Num 0, lastSeen = Num 0\<rparr> 6000 = 0"
  by (simp add: credit_def elapsedMs_def awardOfflinePoints_def POINTS_PER_SECOND_OFFLINE_def)





section \<open>Saving and reading back a record\<close>

text \<open>
  C3 (as amended). Let a save-offline-data request carry a truthy \<open>playerId\<close> (a
  non-empty string or a number other than 0) and a record \<open>d\<close>, and let a
  get-offline-data request for the same \<open>playerId\<close> follow it at once. The save is
  accepted, and the read returns \<open>d\<close> unchanged when the key the middleware derives for
  the reading request differs from \<open>playerId\<close>; when it is \<open>playerId\<close>, the middleware
  has run its accrual on the saved record first and the read returns
  \<open>awardOfflinePoints d now\<close>.
\<close>

theorem save_then_get:
  assumes "route save = SaveOfflineData" and "body_playerId save = Some pid"
    and "body_offlineData save = Some d" and "truthy_key (Some pid)"
    and "route get = GetOfflineData" and "body_playerId get = Some pid"
  shows "fst (serve save s) = JsonSuccess \<and>
         fst (serve get (snd (serve save s)))
           = JsonData (if clientId get = pid then awardOfflinePoints d (clock get) else d)"
proof -
  let ?s1 = "snd (serve save s)"
  have saved: "serve save s = (JsonSuccess,
      (middleware save s)\<lparr>offlineData := (offlineData (middleware save s))(pid \<mapsto> d)\<rparr>)"
    using assms(1-4) by (simp add: save_overwrites)
  then have od1: "offlineData ?s1 pid = Some d" by simp
  have "offlineData (middleware get ?s1) pid
      = Some (if clientId get = pid then awardOfflinePoints d (clock get) else d)"
    using od1 by (auto simp: offlineData_middleware accrue_def touch_def)
  then have "fst (serve get ?s1)
      = JsonData (if clientId get = pid then awardOfflinePoints d (clock get) else d)"
    using assms(4-6) by (simp add: serve_def handler_def get_offline_data_def)
  with saved show ?thesis by simp
qed

text \<open>The client at 203.0.113.5 saves and reads the record of player \<open>p1\<close>.\<close>

theorem save_then_get_witness:
  "fst (serve ((example_request GetOfflineData 3000)\<lparr>body_playerId := Some (KStr ''p1'')\<rparr>)
     (snd (serve ((example_request SaveOfflineData 2000)
        \<lparr>body_playerId := Some (KStr ''p1''),
         body_offlineData := Some \<lparr>points = Num 5, lastSeen = Num 1000\<rparr>\<rparr>)
        (init Map.empty))))
   = JsonData \<lparr>points = Num 5, lastSeen = Num 1000\<rparr>"
  using save_then_get [of "(example_request SaveOfflineData 2000)
        \<lparr>body_playerId := Some (KStr ''p1''),
         body_offlineData := Some \<lparr>points = Num 5, lastSeen = Num 1000\<rparr>\<rparr>"
      "KStr ''p1''" "\<lparr>points = Num 5, lastSeen = Num 1000\<rparr>"
      "(example_request GetOfflineData 3000)\<lparr>body_playerId := Some (KStr ''p1'')\<rparr>"
      "init Map.empty"]
  by (simp add: example_request_def clientId_def getClientIp_def)

text \<open>
  The client that identifies itself as \<open>p1\<close> saves \<open>{points: 5, lastSeen: 1000}\<close> for
  \<open>p1\<close> and reads it back at 3000: the answer is \<open>{points: 7, lastSeen: 3000}\<close>.
\<close>

theorem save_then_get_own_key_counterexample:
  "fst (serve ((example_request GetOfflineData 3000)
         \<lparr>x_client_id := Some ''p1'', body_playerId := Some (KStr ''p1'')\<rparr>)
     (snd (serve ((example_request SaveOfflineData 2000)
        \<lparr>x_client_id := Some ''p1'', body_playerId := Some (KStr ''p1''),
         body_offlineData := Some \<lparr>points = Num 5, lastSeen = Num 1000\<rparr>\<rparr>)
        (init Map.empty))))
   = JsonData \<lparr>points = Num 7, lastSeen = Num 3000\<rparr> \<and>
   JsonData \<lparr>points = Num 7, lastSeen = Num 3000\<rparr>
     \<noteq> JsonData \<lparr>points = Num 5, lastSeen = Num 1000\<rparr>"
  by (simp add: serve_def handler_def save_offline_data_def get_offline_data_def
      offlineData_middleware init_def example_request_def clientId_def
      accrue_def touch_def awardOfflinePoints_def credit_def elapsedMs_def
      POINTS_PER_SECOND_OFFLINE_def)

section \<open>Presence\<close>

lemma presence_subset:
  "A \<subseteq> set opn \<Longrightarrow> closes_open key opn es \<Longrightarrow> presence key A es \<subseteq> set (conns key opn es)"
proof (induction es arbitrary: A opn)
  case Nil
  then show ?case by simp
next
  case (Cons e es)
  show ?case
  proof (cases e)
    case (Request req)
    have "insert (key req) A \<subseteq> set (key req # opn)" using Cons.prems(1) by auto
    with Cons Request show ?thesis by simp
  next
    case (Close k)
    have "A - {k} \<subseteq> set (remove1 k opn)"
    proof
      fix x assume "x \<in> A - {k}"
      then have "x \<in> set opn" and "x \<noteq> k" using Cons.prems(1) by auto
      then show "x \<in> set (remove1 k opn)" by simp
    qed
    with Cons Close show ?thesis by simp
  qed
qed

lemma presence_exact:
  "A = set opn \<Longrightarrow> distinct opn \<Longrightarrow> one_at_a_time key opn es
     \<Longrightarrow> presence key A es = set (conns key opn es)"
proof (induction es arbitrary: A opn)
  case Nil
  then show ?case by simp
next
  case (Cons e es)
  show ?case
  proof (cases e)
    case (Request req)
    with Cons.prems have "insert (key req) A = set (key req # opn)"
      and "distinct (key req # opn)" and "one_at_a_time key (key req # opn) es"
      by simp_all
    from Cons.IH [OF this] Request show ?thesis by simp
  next
    case (Close k)
    with Cons.prems have "A - {k} = set (remove1 k opn)"
      and "distinct (remove1 k opn)" and "one_at_a_time key (remove1 k opn) es"
      by simp_all
    from Cons.IH [OF this] Close show ?thesis by simp
  qed
qed

lemma presence_step:
  "activePlayers (step s e) = presence clientId (activePlayers s) [e] \<and>
   currentPlayers (step s e) = card (activePlayers (step s e))"
proof (cases e)
  case (Request req)
  have "activePlayers (snd (handler req t)) = activePlayers t \<and>
        currentPlayers (snd (handler req t)) = currentPlayers t" for t
    by (cases "route req")
      (simp_all add: handler_def submit_review_def save_offline_data_def my_offline_def Let_def
        split: option.split)
  then show ?thesis using Request by (simp add: serve_def middleware_def Let_def)
next
  case (Close k)
  then show ?thesis by (simp add: on_close_def Let_def)
qed

lemma presence_run:
  "activePlayers (run s es) = presence clientId (activePlayers s) es"
proof (induction es arbitrary: s)
  case Nil
  then show ?case by simp
next
  case (Cons e es)
  have "activePlayers (step s e) = presence clientId (activePlayers s) [e]"
    by (simp add: presence_step)
  then show ?case using Cons.IH [of "step s e"] by (cases e) simp_all
qed

lemma current_run:
  "currentPlayers s = card (activePlayers s)
     \<Longrightarrow> currentPlayers (run s es) = card (activePlayers (run s es))"
  by (induction es arbitrary: s) (simp_all add: presence_step)

lemma presence_stepB:
  "activePlayersB (stepB s e) = presence clientIdB (activePlayersB s) [e] \<and>
   currentPlayersB (stepB s e) = card (activePlayersB (stepB s e))"
proof (cases e)
  case (Request req)
  have "activePlayersB (snd (handlerB req t)) = activePlayersB t \<and>
        currentPlayersB (snd (handlerB req t)) = currentPlayersB t" for t
    by (cases "route req")
      (simp_all add: handlerB_def submit_reviewB_def Let_def split: jsval.split)
  then show ?thesis using Request by (simp add: serveB_def middlewareB_def Let_def)
next
  case (Close k)
  then show ?thesis by (simp add: on_closeB_def Let_def)
qed

lemma presence_runB:
  "activePlayersB (runB s es) = presence clientIdB (activePlayersB s) es"
proof (induction es arbitrary: s)
  case Nil
  then show ?case by simp
next
  case (Cons e es)
  have "activePlayersB (stepB s e) = presence clientIdB (activePlayersB s) [e]"
    by (simp add: presence_stepB)
  then show ?case using Cons.IH [of "stepB s e"] by (cases e) simp_all
qed

lemma current_runB:
  "currentPlayersB s = card (activePlayersB s)
     \<Longrightarrow> currentPlayersB (runB s es) = card (activePlayersB (runB s es))"
  by (induction es arbitrary: s) (simp_all add: presence_stepB)

lemma client_request_key:
  "name \<noteq> [] \<Longrightarrow> clientId (client_request name rt t) = KStr name"
  "name \<noteq> [] \<Longrightarrow> clientIdB (client_request name rt t) = KStr name"
  by (simp_all add: client_request_def example_request_def clientId_def clientIdB_def)

text \<open>
  C2 (as amended). Over every sequence of requests and connection closes from the start
  of the server in which each close ends an open connection, in both variants:
  \<^verbatim>\<open>currentPlayers\<close> is the size of the presence set, and every key in the set has
  an open connection. If moreover no request arrives while another connection of its
  key is open, the set holds exactly the keys with an open connection and
  \<^verbatim>\<open>currentPlayers\<close> is their number.
\<close>

theorem presence_tracks_connections:
  "(closes_open clientId [] es \<longrightarrow>
      currentPlayers (run (init od) es) = card (activePlayers (run (init od) es)) \<and>
      activePlayers (run (init od) es) \<subseteq> set (conns clientId [] es) \<and>
      (one_at_a_time clientId [] es \<longrightarrow>
         activePlayers (run (init od) es) = set (conns clientId [] es) \<and>
         currentPlayers (run (init od) es) = card (set (conns clientId [] es)))) \<and>
   (closes_open clientIdB [] es \<longrightarrow>
      currentPlayersB (runB (initB n revs) es) = card (activePlayersB (runB (initB n revs) es)) \<and>
      activePlayersB (runB (initB n revs) es) \<subseteq> set (conns clientIdB [] es) \<and>
      (one_at_a_time clientIdB [] es \<longrightarrow>
         activePlayersB (runB (initB n revs) es) = set (conns clientIdB [] es) \<and>
         currentPlayersB (runB (initB n revs) es) = card (set (conns clientIdB [] es))))"
proof -
  have a0: "activePlayers (init od) = {}" and c0: "currentPlayers (init od) = card (activePlayers (init od))"
    by (simp_all add: init_def)
  have b0: "activePlayersB (initB n revs) = {}"
    and d0: "currentPlayersB (initB n revs) = card (activePlayersB (initB n revs))"
    by (simp_all add: initB_def)
  have cur: "currentPlayers (run (init od) es) = card (activePlayers (run (init od) es))"
    using c0 by (rule current_run)
  have curB: "currentPlayersB (runB (initB n revs) es) = card (activePlayersB (runB (initB n revs) es))"
    using d0 by (rule current_runB)
  have sub: "closes_open clientId [] es \<Longrightarrow> activePlayers (run (init od) es) \<subseteq> set (conns clientId [] es)"
    using presence_subset [of "{}" "[]" clientId es] by (simp add: presence_run a0)
  have subB: "closes_open clientIdB [] es \<Longrightarrow> activePlayersB (runB (initB n revs) es) \<subseteq> set (conns clientIdB [] es)"
    using presence_subset [of "{}" "[]" clientIdB es] by (simp add: presence_runB b0)
  have ex: "one_at_a_time clientId [] es \<Longrightarrow> activePlayers (run (init od) es) = set (conns clientId [] es)"
    using presence_exact [of "{}" "[]" clientId es] by (simp add: presence_run a0)
  have exB: "one_at_a_time clientIdB [] es \<Longrightarrow> activePlayersB (runB (initB n revs) es) = set (conns clientIdB [] es)"
    using presence_exact [of "{}" "[]" clientIdB es] by (simp add: presence_runB b0)
  show ?thesis
    using cur curB sub subB ex exB by simp
qed


text \<open>
  Client \<open>p1\<close> holds the count stream open; client \<open>p2\<close> polls once and its
  connection closes.
\<close>

theorem presence_tracks_connections_witness:
  "closes_open clientId []
     [Request (client_request ''p1'' PlayerCountStream 10),
      Request (client_request ''p2'' PlayerCount 20), Close (KStr ''p2'')] \<and>
   one_at_a_time clientId []
     [Request (client_request ''p1'' PlayerCountStream 10),
      Request (client_request ''p2'' PlayerCount 20), Close (KStr ''p2'')] \<and>
   conns clientId []
     [Request (client_request ''p1'' PlayerCountStream 10),
      Request (client_request ''p2'' PlayerCount 20), Close (KStr ''p2'')] = [KStr ''p1''] \<and>
   activePlayers (run (init Map.empty)
     [Request (client_request ''p1'' PlayerCountStream 10),
      Request (client_request ''p2'' PlayerCount 20), Close (KStr ''p2'')]) = {KStr ''p1''} \<and>
   currentPlayers (run (init Map.empty)
     [Request (client_request ''p1'' PlayerCountStream 10),
      Request (client_request ''p2'' PlayerCount 20), Close (KStr ''p2'')]) = 1 \<and>
   closes_open clientIdB []
     [Request (client_request ''p1'' PlayerCountStream 10),
      Request (client_request ''p2'' PlayerCount 20), Close (KStr ''p2'')] \<and>
   one_at_a_time clientIdB []
     [Request (client_request ''p1'' PlayerCountStream 10),
      Request (client_request ''p2'' PlayerCount 20), Close (KStr ''p2'')] \<and>
   activePlayersB (runB (initB 0 [])
     [Request (client_request ''p1'' PlayerCountStream 10),
      Request (client_request ''p2'' PlayerCount 20), Close (KStr ''p2'')]) = {KStr ''p1''} \<and>
   currentPlayersB (runB (initB 0 [])
     [Request (client_request ''p1'' PlayerCountStream 10),
      Request (client_request ''p2'' PlayerCount 20), Close (KStr ''p2'')]) = 1"
  using presence_tracks_connections [of
     "[Request (client_request ''p1'' PlayerCountStream 10),
       Request (client_request ''p2'' PlayerCount 20), Close (KStr ''p2'')]" Map.empty 0 "[]"]
  by (simp add: client_request_key)

text \<open>
  Client \<open>p1\<close> holds the count stream open and polls once. When the poll's connection
  closes, the stream is still open, but \<open>p1\<close> has left the presence set and
  \<^verbatim>\<open>currentPlayers\<close> is 0, in both variants.
\<close>

theorem overlapping_connections_counterexample:
  "closes_open clientId []
     [Request (client_request ''p1'' PlayerCountStream 10),
      Request (client_request ''p1'' PlayerCount 20), Close (KStr ''p1'')] \<and>
   conns clientId []
     [Request (client_request ''p1'' PlayerCountStream 10),
      Request (client_request ''p1'' PlayerCount 20), Close (KStr ''p1'')] = [KStr ''p1''] \<and>
   activePlayers (run (init Map.empty)
     [Request (client_request ''p1'' PlayerCountStream 10),
      Request (client_request ''p1'' PlayerCount 20), Close (KStr ''p1'')]) = {} \<and>
   currentPlayers (run (init Map.empty)
     [Request (client_request ''p1'' PlayerCountStream 10),
      Request (client_request ''p1'' PlayerCount 20), Close (KStr ''p1'')]) = 0 \<and>
   activePlayersB (runB (initB 0 [])
     [Request (client_request ''p1'' PlayerCountStream 10),
      Request (client_request ''p1'' PlayerCount 20), Close (KStr ''p1'')]) = {} \<and>
   currentPlayersB (runB (initB 0 [])
     [Request (client_request ''p1'' PlayerCountStream 10),
      Request (client_request ''p1'' PlayerCount 20), Close (KStr ''p1'')]) = 0"
  by (simp add: clientId_def clientIdB_def serve_def handler_def middleware_def on_close_def
      serveB_def handlerB_def middlewareB_def on_closeB_def init_def initB_def Let_def
      client_request_def example_request_def)


section \<open>The total count\<close>

lemma total_request:
  "totalPlayers (step s (Request req)) =
     max (totalPlayers s) (int (currentPlayers (step s (Request req))))
       + (if route req = Root then 1 else 0)"
proof -
  have "totalPlayers (snd (handler req t)) = totalPlayers t + (if route req = Root then 1 else 0) \<and>
        currentPlayers (snd (handler req t)) = currentPlayers t" for t
    by (cases "route req")
      (simp_all add: handler_def submit_review_def save_offline_data_def my_offline_def Let_def
        split: option.split)
  then show ?thesis by (simp add: serve_def middleware_def Let_def)
qed

lemma total_close: "totalPlayers (step s (Close k)) = totalPlayers s"
  by (simp add: on_close_def Let_def)

lemma total_step_mono: "totalPlayers s \<le> totalPlayers (step s e)"
proof (cases e)
  case (Request req)
  then show ?thesis using total_request [of s req] by (simp add: max_def)
next
  case (Close k)
  then show ?thesis using total_close [of s k] by simp
qed

lemma totalB_step:
  "totalPlayersB (stepB s e) = totalPlayersB s + (if is_root e then 1 else 0)"
proof (cases e)
  case (Request req)
  have "totalPlayersB (snd (handlerB req t)) = totalPlayersB t + (if route req = Root then 1 else 0)" for t
    by (cases "route req")
      (simp_all add: handlerB_def submit_reviewB_def Let_def split: jsval.split)
  then show ?thesis using Request by (simp add: serveB_def middlewareB_def Let_def)
next
  case (Close k)
  then show ?thesis by (simp add: on_closeB_def Let_def)
qed

lemma current_le_total_step:
  assumes "int (currentPlayers s) \<le> totalPlayers s"
    and "currentPlayers s = card (activePlayers s)"
  shows "int (currentPlayers (step s e)) \<le> totalPlayers (step s e)"
proof (cases e)
  case (Request req)
  then show ?thesis using total_request [of s req] by (simp add: max_def)
next
  case (Close k)
  have "currentPlayers (step s (Close k)) \<le> card (activePlayers s)"
    by (simp add: on_close_def Let_def card_Diff1_le)
  then show ?thesis using assms Close total_close [of s k] by simp
qed

lemma total_run_mono: "totalPlayers s \<le> totalPlayers (run s es)"
proof (induction es arbitrary: s)
  case Nil
  then show ?case by simp
next
  case (Cons e es)
  have "totalPlayers s \<le> totalPlayers (step s e)" by (rule total_step_mono)
  also have "\<dots> \<le> totalPlayers (run (step s e) es)" by (rule Cons.IH)
  finally show ?case by simp
qed

lemma peak_ge_current: "currentPlayers s \<le> peak s es"
  by (cases es) simp_all

lemma peak_le_total:
  assumes "int (currentPlayers s) \<le> totalPlayers s"
    and "currentPlayers s = card (activePlayers s)"
  shows "int (peak s es) \<le> totalPlayers (run s es)"
  using assms
proof (induction es arbitrary: s)
  case Nil
  then show ?case by simp
next
  case (Cons e es)
  have inv: "int (currentPlayers (step s e)) \<le> totalPlayers (step s e)"
    using Cons.prems by (rule current_le_total_step)
  have card: "currentPlayers (step s e) = card (activePlayers (step s e))"
    by (simp add: presence_step)
  have rest: "int (peak (step s e) es) \<le> totalPlayers (run (step s e) es)"
    using inv card by (rule Cons.IH)
  have "totalPlayers s \<le> totalPlayers (step s e)" by (rule total_step_mono)
  also have "\<dots> \<le> totalPlayers (run (step s e) es)" by (rule total_run_mono)
  finally show ?case using rest Cons.prems(1) by simp
qed

lemma total_is_peak:
  assumes "int (currentPlayers s) \<le> totalPlayers s"
    and "currentPlayers s = card (activePlayers s)"
    and "\<forall>e \<in> set es. \<not> is_root e"
  shows "totalPlayers (run s es) = max (totalPlayers s) (int (peak s es))"
  using assms
proof (induction es arbitrary: s)
  case Nil
  then show ?case by simp
next
  case (Cons e es)
  have inv: "int (currentPlayers (step s e)) \<le> totalPlayers (step s e)"
    using Cons.prems(1,2) by (rule current_le_total_step)
  have card: "currentPlayers (step s e) = card (activePlayers (step s e))"
    by (simp add: presence_step)
  have rest: "totalPlayers (run (step s e) es)
      = max (totalPlayers (step s e)) (int (peak (step s e) es))"
    using inv card Cons.prems(3) by (intro Cons.IH) simp_all
  have here: "totalPlayers (step s e) = max (totalPlayers s) (int (currentPlayers (step s e)))"
  proof (cases e)
    case (Request req)
    with Cons.prems(3) have "route req \<noteq> Root" by simp
    then show ?thesis using Request total_request [of s req] by simp
  next
    case (Close k)
    then show ?thesis using inv total_close [of s k] by simp
  qed
  have "currentPlayers (step s e) \<le> peak (step s e) es" by (rule peak_ge_current)
  then show ?case using rest here Cons.prems(1) by simp
qed

text \<open>
  C9 (as amended). No event lowers \<^verbatim>\<open>totalPlayers\<close>, in either variant. In variant
  B a load of the root page adds exactly one and nothing else changes it. In variant A
  a connection close leaves it, every request raises it to at least the presence count
  the request produces, and a load of the root page then adds one more; from the start
  of the server it is therefore never below the largest \<^verbatim>\<open>currentPlayers\<close> seen so
  far, and it equals that maximum as long as no root page has been loaded.
\<close>

theorem totalPlayers_monotone:
  "totalPlayers s \<le> totalPlayers (step s e) \<and>
   totalPlayersB sB \<le> totalPlayersB (stepB sB e) \<and>
   totalPlayersB (stepB sB e) = totalPlayersB sB + (if is_root e then 1 else 0) \<and>
   totalPlayers (step s (Close k)) = totalPlayers s \<and>
   totalPlayers (step s (Request req))
     = max (totalPlayers s) (int (currentPlayers (step s (Request req))))
         + (if route req = Root then 1 else 0) \<and>
   int (peak (init od) es) \<le> totalPlayers (run (init od) es) \<and>
   ((\<forall>e \<in> set es. \<not> is_root e) \<longrightarrow> totalPlayers (run (init od) es) = int (peak (init od) es))"
proof -
  have i1: "int (currentPlayers (init od)) \<le> totalPlayers (init od)"
    and i2: "currentPlayers (init od) = card (activePlayers (init od))"
    and i3: "totalPlayers (init od) = 0"
    by (simp_all add: init_def)
  have p: "int (peak (init od) es) \<le> totalPlayers (run (init od) es)"
    using i1 i2 by (rule peak_le_total)
  have q: "\<forall>e \<in> set es. \<not> is_root e \<Longrightarrow> totalPlayers (run (init od) es) = int (peak (init od) es)"
    using total_is_peak [OF i1 i2, of es] i3 by simp
  have b: "totalPlayersB sB \<le> totalPlayersB (stepB sB e)"
    by (simp add: totalB_step)
  show ?thesis
    using p q b total_step_mono [of s e] totalB_step [of sB e] total_close [of s k]
      total_request [of s req]
    by blast
qed


theorem totalPlayers_monotone_witness:
  "list_all (\<lambda>e. \<not> is_root e)
     [Request (client_request ''p1'' PlayerCountStream 10),
      Request (client_request ''p2'' PlayerCount 20), Close (KStr ''p2'')] \<and>
   totalPlayers (run (init Map.empty)
     [Request (client_request ''p1'' PlayerCountStream 10),
      Request (client_request ''p2'' PlayerCount 20), Close (KStr ''p2'')]) = 2 \<and>
   peak (init Map.empty)
     [Request (client_request ''p1'' PlayerCountStream 10),
      Request (client_request ''p2'' PlayerCount 20), Close (KStr ''p2'')] = 2 \<and>
   currentPlayers (run (init Map.empty)
     [Request (client_request ''p1'' PlayerCountStream 10),
      Request (client_request ''p2'' PlayerCount 20), Close (KStr ''p2'')]) = 1 \<and>
   totalPlayersB (stepB (initB 41 []) (Request (client_request ''p1'' Root 10))) = 42 \<and>
   totalPlayersB (stepB (initB 41 []) (Request (client_request ''p1'' PlayerCount 10))) = 41"
  using totalPlayers_monotone [of "init Map.empty" "Request (client_request ''p1'' Root 10)"
      "initB 41 []" "KStr ''p2''" "client_request ''p1'' Root 10" Map.empty
      "[Request (client_request ''p1'' PlayerCountStream 10),
        Request (client_request ''p2'' PlayerCount 20), Close (KStr ''p2'')]"]
  by (simp add: clientId_def clientIdB_def serve_def handler_def middleware_def on_close_def
      serveB_def handlerB_def middlewareB_def on_closeB_def init_def initB_def Let_def
      client_request_def example_request_def)

text \<open>
  One load of the root page on a fresh server of variant A: the presence count has
  never been above 1, and \<^verbatim>\<open>totalPlayers\<close> is 2.
\<close>

theorem root_load_exceeds_peak_counterexample:
  "totalPlayers (run (init Map.empty) [Request (example_request Root 0)]) = 2 \<and>
   peak (init Map.empty) [Request (example_request Root 0)] = 1"
  by (simp add: clientId_def getClientIp_def serve_def handler_def middleware_def
      init_def Let_def example_request_def)


section \<open>The review log\<close>

lemma length_slice_last: "length (slice_last n xs) \<le> n"
  by (simp add: slice_last_def)

lemma slice_last_short: "length xs \<le> n \<Longrightarrow> slice_last n xs = xs"
  by (simp add: slice_last_def)

lemma slice_last_append: "slice_last n (slice_last n xs @ ys) = slice_last n (xs @ ys)"
proof (cases "length xs \<le> n")
  case True
  then show ?thesis by (simp add: slice_last_short)
next
  case False
  then have "slice_last n xs @ ys = drop (length xs - n) (xs @ ys)"
    by (simp add: slice_last_def)
  moreover have "length (xs @ ys) - (length xs - n) - n + (length xs - n) = length (xs @ ys) - n"
    using False by simp
  ultimately show ?thesis
    by (simp add: slice_last_def)
qed

lemma cap_slice: "(if length xs > 100 then slice_last 100 xs else xs) = slice_last 100 xs"
  by (simp add: slice_last_def)

lemma reviews_request:
  "reviews (snd (serve req s)) =
     (if route req = SubmitReview \<and> accepted req
      then slice_last 100 (reviews s @ [review_of req]) else reviews s)"
proof -
  have m: "reviews (middleware req s) = reviews s" by (simp add: middleware_def Let_def)
  have "reviews (snd (handler req t)) =
     (if route req = SubmitReview \<and> accepted req
      then slice_last 100 (reviews t @ [review_of req]) else reviews t)" for t
    by (cases "route req")
      (simp_all add: handler_def submit_review_def save_offline_data_def my_offline_def Let_def
        accepted_def review_of_def cap_slice split: option.split)
  then show ?thesis by (simp add: serve_def m)
qed

lemma reviews_close: "reviews (on_close k s) = reviews s"
  by (simp add: on_close_def Let_def)

lemma reviews_bounded_step: "length (reviews s) \<le> 100 \<Longrightarrow> length (reviews (step s e)) \<le> 100"
  by (cases e) (simp_all add: reviews_request reviews_close length_slice_last)

lemma reviews_bounded_run: "length (reviews s) \<le> 100 \<Longrightarrow> length (reviews (run s es)) \<le> 100"
  by (induction es arbitrary: s) (simp_all add: reviews_bounded_step del: step.simps)

lemma reviews_submits:
  assumes "\<forall>r \<in> set rs. route r = SubmitReview \<and> accepted r" and "length (reviews s) \<le> 100"
  shows "reviews (run s (map Request rs)) = slice_last 100 (reviews s @ map review_of rs)"
  using assms
proof (induction rs arbitrary: s)
  case Nil
  then show ?case by (simp add: slice_last_short)
next
  case (Cons r rs)
  let ?s1 = "step s (Request r)"
  have r1: "reviews ?s1 = slice_last 100 (reviews s @ [review_of r])"
    using Cons.prems(1) by (simp add: reviews_request)
  then have "length (reviews ?s1) \<le> 100" by (simp add: length_slice_last)
  with Cons have "reviews (run ?s1 (map Request rs)) = slice_last 100 (reviews ?s1 @ map review_of rs)"
    by simp
  also have "\<dots> = slice_last 100 ((reviews s @ [review_of r]) @ map review_of rs)"
    unfolding r1 by (rule slice_last_append)
  finally show ?case by simp
qed

lemma newest_first:
  assumes "i < length (slice_last 10 xs)"
  shows "rev (slice_last 10 xs) ! i = xs ! (length xs - 1 - i)"
proof -
  have "rev (slice_last 10 xs) ! i = slice_last 10 xs ! (length (slice_last 10 xs) - Suc i)"
    using assms by (simp add: rev_nth)
  also have "\<dots> = xs ! (length xs - 1 - i)"
    using assms by (simp add: slice_last_def) 
  finally show ?thesis .
qed


lemma reviewsB_request:
  "reviewsB (snd (serveB req s)) =
     (if route req = SubmitReview \<and> accepted req \<and> is_string (body_text req)
      then slice_last 100 (reviewsB s @ [review_ofB req]) else reviewsB s)"
proof -
  have m: "reviewsB (middlewareB req s) = reviewsB s" by (simp add: middlewareB_def Let_def)
  have sub: "reviewsB (snd (submit_reviewB req t)) =
     (if accepted req \<and> is_string (body_text req)
      then slice_last 100 (reviewsB t @ [review_ofB req]) else reviewsB t)" for t
    by (cases "body_text req")
      (simp_all add: submit_reviewB_def Let_def accepted_def review_ofB_def cap_slice)
  have "reviewsB (snd (handlerB req t)) =
     (if route req = SubmitReview \<and> accepted req \<and> is_string (body_text req)
      then slice_last 100 (reviewsB t @ [review_ofB req]) else reviewsB t)" for t
    by (cases "route req") (simp_all add: handlerB_def sub)
  then show ?thesis by (simp add: serveB_def m)
qed

lemma reviewsB_close: "reviewsB (on_closeB k s) = reviewsB s"
  by (simp add: on_closeB_def Let_def)

lemma reviewsB_bounded_step:
  "length (reviewsB s) \<le> 100 \<Longrightarrow> length (reviewsB (stepB s e)) \<le> 100"
  by (cases e) (simp_all add: reviewsB_request reviewsB_close length_slice_last)

lemma reviewsB_bounded_run:
  "length (reviewsB s) \<le> 100 \<Longrightarrow> length (reviewsB (runB s es)) \<le> 100"
  by (induction es arbitrary: s) (simp_all add: reviewsB_bounded_step del: stepB.simps)

lemma reviewsB_submits:
  assumes "\<forall>r \<in> set rs. route r = SubmitReview \<and> accepted r \<and> is_string (body_text r)"
    and "length (reviewsB s) \<le> 100"
  shows "reviewsB (runB s (map Request rs)) = slice_last 100 (reviewsB s @ map review_ofB rs)"
  using assms
proof (induction rs arbitrary: s)
  case Nil
  then show ?case by (simp add: slice_last_short)
next
  case (Cons r rs)
  let ?s1 = "stepB s (Request r)"
  have r1: "reviewsB ?s1 = slice_last 100 (reviewsB s @ [review_ofB r])"
    using Cons.prems(1) by (simp add: reviewsB_request)
  then have "length (reviewsB ?s1) \<le> 100" by (simp add: length_slice_last)
  with Cons have "reviewsB (runB ?s1 (map Request rs))
      = slice_last 100 (reviewsB ?s1 @ map review_ofB rs)"
    by simp
  also have "\<dots> = slice_last 100 ((reviewsB s @ [review_ofB r]) @ map review_ofB rs)"
    unfolding r1 by (rule slice_last_append)
  finally show ?case by simp
qed

lemma slice_last_101: "length xs = 101 \<Longrightarrow> slice_last 100 xs = tl xs"
  by (simp add: slice_last_def drop_Suc)

lemma get_reviews_served:
  "route req = GetReviews \<Longrightarrow> fst (serve req s) = JsonReviews (rev (slice_last 10 (reviews s)))"
  by (simp add: serve_def handler_def get_reviews_def middleware_def Let_def)

lemma get_reviews_servedB:
  "route req = GetReviews \<Longrightarrow> fst (serveB req s) = JsonReviews (rev (slice_last 10 (reviewsB s)))"
  by (simp add: serveB_def handlerB_def get_reviewsB_def middlewareB_def Let_def)

text \<open>
  C6. From the start of the server the review log never has more than 100 entries,
  whatever requests and closes arrive (in variant B when the log read from
  \<^verbatim>\<open>data.json\<close> has at most 100). A sequence of accepted submit-review requests
  leaves the last 100 of the submitted reviews, so 101 of them leave all but the first.
  A get-reviews request answers with the last 10 entries of the log reversed: at most
  10 reviews, entry \<open>i\<close> of the answer being entry \<open>i\<close> from the end of the log.
\<close>

theorem review_log_bounded:
  "length (reviews (run (init od) es)) \<le> 100 \<and>
   (length revs \<le> 100 \<longrightarrow> length (reviewsB (runB (initB n revs) es)) \<le> 100) \<and>
   ((\<forall>r \<in> set rs. route r = SubmitReview \<and> accepted r) \<longrightarrow>
      reviews (run (init od) (map Request rs)) = slice_last 100 (map review_of rs) \<and>
      (length rs = 101 \<longrightarrow> reviews (run (init od) (map Request rs)) = tl (map review_of rs))) \<and>
   ((\<forall>r \<in> set rs. route r = SubmitReview \<and> accepted r \<and> is_string (body_text r)) \<longrightarrow>
      reviewsB (runB (initB n []) (map Request rs)) = slice_last 100 (map review_ofB rs) \<and>
      (length rs = 101 \<longrightarrow> reviewsB (runB (initB n []) (map Request rs)) = tl (map review_ofB rs))) \<and>
   (route req = GetReviews \<longrightarrow>
      (\<exists>out. fst (serve req s) = JsonReviews out \<and>
         out = rev (slice_last 10 (reviews s)) \<and> length out \<le> 10 \<and>
         (\<forall>i < length out. out ! i = reviews s ! (length (reviews s) - 1 - i))) \<and>
      (\<exists>out. fst (serveB req sB) = JsonReviews out \<and>
         out = rev (slice_last 10 (reviewsB sB)) \<and> length out \<le> 10 \<and>
         (\<forall>i < length out. out ! i = reviewsB sB ! (length (reviewsB sB) - 1 - i))))"
proof -
  have a: "length (reviews (run (init od) es)) \<le> 100"
    by (rule reviews_bounded_run) (simp add: init_def)
  have b: "length revs \<le> 100 \<Longrightarrow> length (reviewsB (runB (initB n revs) es)) \<le> 100"
    by (rule reviewsB_bounded_run) (simp add: initB_def)
  have c: "reviews (run (init od) (map Request rs)) = slice_last 100 (map review_of rs)"
    if "\<forall>r \<in> set rs. route r = SubmitReview \<and> accepted r"
    using reviews_submits [OF that, of "init od"] by (simp add: init_def)
  have d: "reviewsB (runB (initB n []) (map Request rs)) = slice_last 100 (map review_ofB rs)"
    if "\<forall>r \<in> set rs. route r = SubmitReview \<and> accepted r \<and> is_string (body_text r)"
    using reviewsB_submits [OF that, of "initB n []"] by (simp add: initB_def)
  have e: "length rs = 101 \<Longrightarrow> slice_last 100 (map f rs) = tl (map f rs)" for f :: "request \<Rightarrow> review"
    by (rule slice_last_101) simp
  have f: "length (rev (slice_last 10 xs)) \<le> 10" for xs :: "review list"
    by (simp add: length_slice_last)
  have g: "\<forall>i < length (rev (slice_last 10 xs)).
      rev (slice_last 10 xs) ! i = xs ! (length xs - 1 - i)" for xs :: "review list"
    using newest_first [of _ xs] by simp
  show ?thesis
    using a b c d e f g get_reviews_served [of req s] get_reviews_servedB [of req sB]
    by simp
qed


text \<open>
  Client \<open>p1\<close> submits 101 reviews with the timestamps 1 to 101: the log holds those
  with the timestamps 2 to 101, in variant B with the text trimmed.
\<close>

theorem review_log_bounded_witness:
  "list_all (\<lambda>r. route r = SubmitReview \<and> accepted r \<and> is_string (body_text r))
     (map submission [0..<101]) \<and>
   length (map submission [0..<101]) = 101 \<and>
   reviews (run (init Map.empty) (map Request (map submission [0..<101])))
     = map (\<lambda>i. \<lparr>review_text = JStr '' meow '', review_timestamp = JNum (int i + 1)\<rparr>) [1..<101] \<and>
   reviewsB (runB (initB 0 []) (map Request (map submission [0..<101])))
     = map (\<lambda>i. \<lparr>review_text = JStr ''meow'', review_timestamp = JNum (int i + 1)\<rparr>) [1..<101] \<and>
   fst (serve (example_request GetReviews 7)
          ((init Map.empty)\<lparr>reviews := [review_of (submission 1), review_of (submission 2)]\<rparr>))
     = JsonReviews [review_of (submission 2), review_of (submission 1)]"
proof -
  let ?rs = "map submission [0..<101]"
  let ?s = "(init Map.empty)\<lparr>reviews := [review_of (submission 1), review_of (submission 2)]\<rparr>"
  note all = review_log_bounded [of Map.empty "[]" "[]" 0 ?rs "example_request GetReviews 7" ?s
      "initB 0 []"]
  have ok: "\<forall>r \<in> set ?rs. route r = SubmitReview \<and> accepted r \<and> is_string (body_text r)"
    by (simp add: submission_def client_request_def example_request_def accepted_def)
  then have okA: "\<forall>r \<in> set ?rs. route r = SubmitReview \<and> accepted r" by blast
  have len: "length ?rs = 101" by simp
  have tlA: "tl (map review_of ?rs)
      = map (\<lambda>i. \<lparr>review_text = JStr '' meow '', review_timestamp = JNum (int i + 1)\<rparr>) [1..<101]"
    by (simp add: map_tl [symmetric] review_of_def submission_def del: upt_Suc)
  have tlB: "tl (map review_ofB ?rs)
      = map (\<lambda>i. \<lparr>review_text = JStr ''meow'', review_timestamp = JNum (int i + 1)\<rparr>) [1..<101]"
    by (simp add: map_tl [symmetric] review_ofB_def submission_def trim_def isSpace_def del: upt_Suc)
  have a: "reviews (run (init Map.empty) (map Request ?rs)) = tl (map review_of ?rs)"
    using all okA len by blast
  have b: "reviewsB (runB (initB 0 []) (map Request ?rs)) = tl (map review_ofB ?rs)"
    using all ok len by blast
  have gr: "route (example_request GetReviews 7) = GetReviews"
    by (simp add: example_request_def)
  have g: "fst (serve (example_request GetReviews 7) ?s)
      = JsonReviews (rev (slice_last 10 (reviews ?s)))"
    using all gr by blast
  show ?thesis
    using ok len a b g tlA tlB by (simp add: slice_last_def list_all_iff)
qed


section \<open>Validation of a submitted review\<close>

lemma submit_response:
  assumes "route req = SubmitReview"
  shows "fst (serve req s) =
           (if accepted req then JsonSuccess else JsonFailure ''Missing required fields'')"
  using assms by (simp add: serve_def handler_def submit_review_def accepted_def Let_def)

lemma submit_responseB:
  assumes "route req = SubmitReview"
  shows "fst (serveB req s) =
           (if \<not> accepted req then JsonFailure ''Missing required fields''
            else if is_string (body_text req) then JsonSuccess else ServerError)"
  using assms
  by (cases "body_text req")
    (simp_all add: serveB_def handlerB_def submit_reviewB_def accepted_def Let_def)

text \<open>
  C7 (as amended). A submit-review request whose \<^verbatim>\<open>text\<close> or \<^verbatim>\<open>timestamp\<close> is
  missing or otherwise falsy (an empty string, the number 0, \<^verbatim>\<open>null\<close>,
  \<^verbatim>\<open>false\<close>) is answered with \<open>{success: false, error: 'Missing required fields'}\<close>
  at status 200 and leaves the review log as it was, in both variants. A request whose
  two fields are truthy is answered with \<open>{success: true}\<close> and its review becomes the
  last entry of the log: in variant A always, in variant B (with the text trimmed) when
  \<^verbatim>\<open>text\<close> is a string.
\<close>

theorem submit_review_validation:
  assumes "route req = SubmitReview"
  shows "(\<not> truthy (body_text req) \<or> \<not> truthy (body_timestamp req) \<longrightarrow>
            fst (serve req s) = JsonFailure ''Missing required fields'' \<and>
            status (fst (serve req s)) = 200 \<and>
            reviews (snd (serve req s)) = reviews s \<and>
            fst (serveB req sB) = JsonFailure ''Missing required fields'' \<and>
            status (fst (serveB req sB)) = 200 \<and>
            reviewsB (snd (serveB req sB)) = reviewsB sB) \<and>
         (truthy (body_text req) \<and> truthy (body_timestamp req) \<longrightarrow>
            fst (serve req s) = JsonSuccess \<and>
            reviews (snd (serve req s)) = slice_last 100 (reviews s @ [review_of req]) \<and>
            (is_string (body_text req) \<longrightarrow>
               fst (serveB req sB) = JsonSuccess \<and>
               reviewsB (snd (serveB req sB)) = slice_last 100 (reviewsB sB @ [review_ofB req])))"
  using assms
  by (simp add: submit_response submit_responseB reviews_request reviewsB_request accepted_def)


theorem submit_review_validation_witness:
  "fst (serve ((example_request SubmitReview 5)\<lparr>body_timestamp := JNum 1700000000000\<rparr>)
        (init Map.empty)) = JsonFailure ''Missing required fields'' \<and>
   reviews (snd (serve ((example_request SubmitReview 5)\<lparr>body_timestamp := JNum 1700000000000\<rparr>)
        (init Map.empty))) = [] \<and>
   fst (serve (submission 4) (init Map.empty)) = JsonSuccess \<and>
   reviews (snd (serve (submission 4) (init Map.empty)))
     = [\<lparr>review_text = JStr '' meow '', review_timestamp = JNum 5\<rparr>] \<and>
   fst (serveB (submission 4) (initB 0 [])) = JsonSuccess \<and>
   reviewsB (snd (serveB (submission 4) (initB 0 [])))
     = [\<lparr>review_text = JStr ''meow'', review_timestamp = JNum 5\<rparr>]"
  using submit_review_validation [of "(example_request SubmitReview 5)\<lparr>body_timestamp := JNum 1700000000000\<rparr>"
      "init Map.empty" "initB 0 []"]
    submit_review_validation [of "submission 4" "init Map.empty" "initB 0 []"]
  by (simp add: example_request_def submission_def client_request_def init_def initB_def
      review_of_def review_ofB_def slice_last_def trim_def isSpace_def)

text \<open>
  A review with the text \<open>nice game\<close> and the timestamp 0 has both fields, and is
  rejected by both variants.
\<close>

theorem zero_timestamp_rejected_counterexample:
  "body_text ((example_request SubmitReview 5)
      \<lparr>body_text := JStr ''nice game'', body_timestamp := JNum 0\<rparr>) \<noteq> JUndefined \<and>
   body_timestamp ((example_request SubmitReview 5)
      \<lparr>body_text := JStr ''nice game'', body_timestamp := JNum 0\<rparr>) \<noteq> JUndefined \<and>
   serve ((example_request SubmitReview 5)
      \<lparr>body_text := JStr ''nice game'', body_timestamp := JNum 0\<rparr>) (init Map.empty)
     = (JsonFailure ''Missing required fields'',
        middleware ((example_request SubmitReview 5)
          \<lparr>body_text := JStr ''nice game'', body_timestamp := JNum 0\<rparr>) (init Map.empty)) \<and>
   reviews (snd (serve ((example_request SubmitReview 5)
      \<lparr>body_text := JStr ''nice game'', body_timestamp := JNum 0\<rparr>) (init Map.empty))) = [] \<and>
   fst (serveB ((example_request SubmitReview 5)
      \<lparr>body_text := JStr ''nice game'', body_timestamp := JNum 0\<rparr>) (initB 0 []))
     = JsonFailure ''Missing required fields'' \<and>
   reviewsB (snd (serveB ((example_request SubmitReview 5)
      \<lparr>body_text := JStr ''nice game'', body_timestamp := JNum 0\<rparr>) (initB 0 []))) = []"
  by (simp add: serve_def handler_def submit_review_def serveB_def handlerB_def
      submit_reviewB_def middleware_def middlewareB_def example_request_def init_def initB_def
      Let_def)


section \<open>Start-up\<close>

lemma coerce_entries_null:
  "None \<in> snd ` set es \<Longrightarrow> coerce_entries es i now m = Throws"
proof (induction es arbitrary: i m)
  case Nil
  then show ?case by simp
next
  case (Cons e es)
  obtain k v where e: "e = (k, v)" by (cases e)
  show ?case
  proof (cases v)
    case None
    with e show ?thesis by simp
  next
    case (Some r)
    with Cons.prems e have "None \<in> snd ` set es" by auto
    then have "coerce_entries es (Suc i) now (m(KStr k \<mapsto> coerce r (now i))) = Throws"
      by (rule Cons.IH)
    with e Some show ?thesis by simp
  qed
qed

lemma coerce_entries_ok:
  assumes "None \<notin> snd ` set es"
  shows "\<exists>m'. coerce_entries es i now m = Returns m' \<and>
           (\<forall>k'. k' \<notin> KStr ` fst ` set es \<longrightarrow> m' k' = m k') \<and>
           (\<forall>k'. k' \<in> KStr ` fst ` set es \<longrightarrow> m' k' \<noteq> None) \<and>
           (distinct (map fst es) \<longrightarrow>
              (\<forall>j < length es. \<forall>k v. es ! j = (k, Some v)
                 \<longrightarrow> m' (KStr k) = Some (coerce v (now (i + j)))))"
  using assms
proof (induction es i now m rule: coerce_entries.induct)
  case (1 i now m)
  then show ?case by simp
next
  case (2 k es i now m)
  then show ?case by simp
next
  case (3 k0 v0 es i now m)
  let ?m1 = "m(KStr k0 \<mapsto> coerce v0 (now i))"
  from "3.prems" have "None \<notin> snd ` set es" by auto
  from "3.IH" [OF this] obtain m' where
    ret: "coerce_entries es (Suc i) now ?m1 = Returns m'"
    and frame: "\<forall>k'. k' \<notin> KStr ` fst ` set es \<longrightarrow> m' k' = ?m1 k'"
    and there: "\<forall>k'. k' \<in> KStr ` fst ` set es \<longrightarrow> m' k' \<noteq> None"
    and vals: "distinct (map fst es) \<longrightarrow>
              (\<forall>j < length es. \<forall>k v. es ! j = (k, Some v)
                 \<longrightarrow> m' (KStr k) = Some (coerce v (now (Suc i + j))))"
    by blast
  have 1: "coerce_entries ((k0, Some v0) # es) i now m = Returns m'"
    using ret by simp
  have 2: "\<forall>k'. k' \<notin> KStr ` fst ` set ((k0, Some v0) # es) \<longrightarrow> m' k' = m k'"
    using frame by auto
  have 3: "\<forall>k'. k' \<in> KStr ` fst ` set ((k0, Some v0) # es) \<longrightarrow> m' k' \<noteq> None"
  proof (intro allI impI)
    fix k' assume k': "k' \<in> KStr ` fst ` set ((k0, Some v0) # es)"
    show "m' k' \<noteq> None"
    proof (cases "k' \<in> KStr ` fst ` set es")
      case True
      then show ?thesis using there by blast
    next
      case False
      with k' have "k' = KStr k0" by auto
      with False frame show ?thesis by simp
    qed
  qed
  have 4: "\<forall>j < length ((k0, Some v0) # es). \<forall>k v. ((k0, Some v0) # es) ! j = (k, Some v)
                 \<longrightarrow> m' (KStr k) = Some (coerce v (now (i + j)))"
    if d: "distinct (map fst ((k0, Some v0) # es))"
  proof (intro allI impI)
    fix j k v
    assume j: "j < length ((k0, Some v0) # es)" and e: "((k0, Some v0) # es) ! j = (k, Some v)"
    show "m' (KStr k) = Some (coerce v (now (i + j)))"
    proof (cases j)
      case 0
      with e have "k = k0" and "v = v0" by simp_all
      moreover from d have "KStr k0 \<notin> KStr ` fst ` set es" by auto
      ultimately show ?thesis using frame 0 by simp
    next
      case (Suc j')
      with j e have "j' < length es" and "es ! j' = (k, Some v)" by simp_all
      moreover from d have "distinct (map fst es)" by simp
      ultimately have "m' (KStr k) = Some (coerce v (now (Suc i + j')))"
        using vals by blast
      then show ?thesis using Suc by simp
    qed
  qed
  show ?case using 1 2 3 4 by blast
qed

text \<open>
  C8. When the store file does not exist, the server starts with the empty map (variant
  A) or with \<open>{totalPlayers: 0, reviews: []}\<close> (variant B) and logs nothing. When it
  exists and reading or parsing throws, or (variant A) an entry is \<^verbatim>\<open>null\<close> so
  that the coercion throws, the error is logged and the server starts with the same
  empty or default state: every outcome of the read is a state of the server. When the
  read succeeds nothing is logged; variant A starts with the map of the document's
  keys, each record with \<open>points\<close> coerced to \<open>points || 0\<close> and \<open>lastSeen\<close> to
  \<open>lastSeen || now\<close>, and variant B with the document's \<open>totalPlayers\<close> and
  \<open>reviews\<close> over the defaults.
\<close>

theorem load_never_fatal:
  "load_offlineData False parsed now = (Map.empty, False) \<and>
   load_data False parsedB = ((0, []), False) \<and>
   load_offlineData True Throws now = (Map.empty, True) \<and>
   load_data True Throws = ((0, []), True) \<and>
   (None \<in> snd ` set raw \<longrightarrow> load_offlineData True (Returns raw) now = (Map.empty, True)) \<and>
   (None \<notin> snd ` set raw \<longrightarrow>
      (\<exists>m. load_offlineData True (Returns raw) now = (m, False) \<and>
           dom m = KStr ` fst ` set raw \<and>
           (distinct (map fst raw) \<longrightarrow>
              (\<forall>j < length raw. \<forall>k v. raw ! j = (k, Some v) \<longrightarrow>
                 m (KStr k) = Some \<lparr>points = Num (or_else (points v) 0),
                                     lastSeen = Num (or_else (lastSeen v) (now j))\<rparr>)))) \<and>
   load_data True (Returns l) =
     (((case loaded_totalPlayers l of None \<Rightarrow> 0 | Some n \<Rightarrow> n),
       (case loaded_reviews l of None \<Rightarrow> [] | Some rs \<Rightarrow> rs)), False)"
proof -
  have bad: "load_offlineData True (Returns raw) now = (Map.empty, True)"
    if "None \<in> snd ` set raw"
    using coerce_entries_null [OF that] by (simp add: load_offlineData_def)
  have good: "\<exists>m. load_offlineData True (Returns raw) now = (m, False) \<and>
           dom m = KStr ` fst ` set raw \<and>
           (distinct (map fst raw) \<longrightarrow>
              (\<forall>j < length raw. \<forall>k v. raw ! j = (k, Some v) \<longrightarrow>
                 m (KStr k) = Some \<lparr>points = Num (or_else (points v) 0),
                                     lastSeen = Num (or_else (lastSeen v) (now j))\<rparr>))"
    if nn: "None \<notin> snd ` set raw"
  proof -
    from coerce_entries_ok [OF nn, of 0 now Map.empty] obtain m where
      ret: "coerce_entries raw 0 now Map.empty = Returns m"
      and frame: "\<forall>k'. k' \<notin> KStr ` fst ` set raw \<longrightarrow> m k' = None"
      and there: "\<forall>k'. k' \<in> KStr ` fst ` set raw \<longrightarrow> m k' \<noteq> None"
      and vals: "distinct (map fst raw) \<longrightarrow>
                 (\<forall>j < length raw. \<forall>k v. raw ! j = (k, Some v)
                    \<longrightarrow> m (KStr k) = Some (coerce v (now j)))"
      by auto
    have "k' \<in> dom m \<longleftrightarrow> k' \<in> KStr ` fst ` set raw" for k'
      using frame there by (cases "k' \<in> KStr ` fst ` set raw") (auto simp: dom_def)
    then have "dom m = KStr ` fst ` set raw"
      by blast
    moreover have "coerce v t = \<lparr>points = Num (or_else (points v) 0),
        lastSeen = Num (or_else (lastSeen v) t)\<rparr>" for v t
      by (simp add: coerce_def)
    ultimately show ?thesis using ret vals by (simp add: load_offlineData_def)
  qed
  show ?thesis
    using bad good by (simp add: load_offlineData_def load_data_def)
qed


theorem load_never_fatal_witness:
  "load_offlineData True
      (Returns [(''a'', Some \<lparr>points = Num 3, lastSeen = Undefined\<rparr>), (''b'', None)])
      (\<lambda>i. 1000 + int i) = (Map.empty, True) \<and>
   snd (load_offlineData True
      (Returns [(''a'', Some \<lparr>points = Undefined, lastSeen = Num 0\<rparr>),
                (''b'', Some \<lparr>points = Num 3, lastSeen = Num 500\<rparr>)])
      (\<lambda>i. 1000 + int i)) = False \<and>
   fst (load_offlineData True
      (Returns [(''a'', Some \<lparr>points = Undefined, lastSeen = Num 0\<rparr>),
                (''b'', Some \<lparr>points = Num 3, lastSeen = Num 500\<rparr>)])
      (\<lambda>i. 1000 + int i)) (KStr ''a'') = Some \<lparr>points = Num 0, lastSeen = Num 1000\<rparr> \<and>
   fst (load_offlineData True
      (Returns [(''a'', Some \<lparr>points = Undefined, lastSeen = Num 0\<rparr>),
                (''b'', Some \<lparr>points = Num 3, lastSeen = Num 500\<rparr>)])
      (\<lambda>i. 1000 + int i)) (KStr ''b'') = Some \<lparr>points = Num 3, lastSeen = Num 500\<rparr> \<and>
   load_data True (Returns \<lparr>loaded_totalPlayers = Some 12, loaded_reviews = None\<rparr>)
     = ((12, []), False)"
  using load_never_fatal [of Throws "\<lambda>i. 1000 + int i" Throws
      "[(''a'', Some \<lparr>points = Num 3, lastSeen = Undefined\<rparr>), (''b'', None)]"
      "\<lparr>loaded_totalPlayers = Some 12, loaded_reviews = None\<rparr>"]
    load_never_fatal [of Throws "\<lambda>i. 1000 + int i" Throws
      "[(''a'', Some \<lparr>points = Undefined, lastSeen = Num 0\<rparr>),
        (''b'', Some \<lparr>points = Num 3, lastSeen = Num 500\<rparr>)]"
      "\<lparr>loaded_totalPlayers = Some 12, loaded_reviews = None\<rparr>"]
  by (simp add: load_offlineData_def coerce_def)


end
